theory Spec2Isabelle
  imports Main "HOL-Library.Multiset"
begin

section \<open>The cache: entries, TTL policy, background refresh\<close>

text \<open>
  Times are readings of \<^verbatim>\<open>datetime.now()\<close>, counted in microseconds (the resolution
  of Python's \<^verbatim>\<open>datetime\<close> and \<^verbatim>\<open>timedelta\<close>, whose arithmetic is exact). Every
  operation that reads the clock takes the reading as its argument \<open>now\<close>.
  A Python value of type \<^verbatim>\<open>Optional[Any]\<close> is an \<open>'a option\<close>: \<open>None\<close> is Python's
  \<^verbatim>\<open>None\<close>. Cache keys are strings of 8-bit characters.
\<close>

subsection \<open>Strings: \<^verbatim>\<open>str.split\<close>, \<^verbatim>\<open>str.lower\<close>\<close>

fun split :: "char \<Rightarrow> string \<Rightarrow> string list" where
  "split sep [] = [[]]"
| "split sep (c # cs) =
     (if c = sep then [] # split sep cs
      else (case split sep cs of
              [] \<Rightarrow> [[c]]
            | p # ps \<Rightarrow> (c # p) # ps))"

definition lower_char :: "char \<Rightarrow> char" where
  "lower_char c =
     (if 65 \<le> (of_char c :: nat) \<and> (of_char c :: nat) \<le> 90
      then char_of ((of_char c :: nat) + 32) else c)"

definition lower :: "string \<Rightarrow> string" where
  "lower s = map lower_char s"

subsection \<open>\<^verbatim>\<open>CacheEntry\<close>\<close>

record 'a CacheEntry =
  data :: "'a option"
  timestamp :: int
  ttl_seconds :: int

definition timedelta_seconds :: "int \<Rightarrow> int" where
  "timedelta_seconds n = n * 1000000"

definition is_expired :: "int \<Rightarrow> 'a CacheEntry \<Rightarrow> bool" where
  "is_expired now entry \<longleftrightarrow> now - timestamp entry > timedelta_seconds (ttl_seconds entry)"

subsection \<open>\<^verbatim>\<open>Config.CACHE_TTLS\<close>\<close>

definition CACHE_TTLS :: "(string \<times> int) list" where
  "CACHE_TTLS =
     [(''instances'', 120),
      (''ssm'', 120),
      (''rds'', 300),
      (''elasticache'', 300),
      (''ecs'', 600),
      (''eks'', 600),
      (''regions'', 3600),
      (''cloudwatch_dashboards'', 600),
      (''cloudwatch_alarms'', 120),
      (''cloudwatch_logs'', 60),
      (''lambda'', 300),
      (''s3_buckets'', 600),
      (''s3_objects'', 60),
      (''default'', 300)]"

text \<open>\<^verbatim>\<open>d.get(k, default)\<close> on a dictionary given as an association list.\<close>

definition dict_get :: "('k \<times> 'v) list \<Rightarrow> 'k \<Rightarrow> 'v \<Rightarrow> 'v" where
  "dict_get d k dflt = (case map_of d k of Some v \<Rightarrow> v | None \<Rightarrow> dflt)"

text \<open>\<^verbatim>\<open>Config.CACHE_TTLS['default']\<close>; the key is present in the table.\<close>

definition CACHE_TTLS_default :: int where
  "CACHE_TTLS_default = the (map_of CACHE_TTLS ''default'')"

subsection \<open>\<^verbatim>\<open>PerformanceCache\<close>\<close>

text \<open>
  The state of a \<^verbatim>\<open>PerformanceCache\<close>: the two dictionaries \<^verbatim>\<open>_cache\<close> and
  \<^verbatim>\<open>_background_refresh_active\<close>, together with what the object sets in motion: the
  refresh threads it has started and not yet run (\<open>threads\<close>: key and the outcome the
  refresh function will have, \<open>Inl\<close> the text of the exception it raises), the keys whose
  refresh function has been invoked (\<open>invoked\<close>, in order), and the warnings logged.
  The lock \<^verbatim>\<open>_lock\<close> makes each dictionary access below atomic; it holds no data.
\<close>

record 'a PerformanceCache =
  cache :: "string \<rightharpoonup> 'a CacheEntry"
  background_refresh_active :: "string \<rightharpoonup> bool"
  threads :: "(string \<times> (string + 'a option)) list"
  invoked :: "string list"
  warnings :: "string list"

definition init :: "'a PerformanceCache" where
  "init = \<lparr>cache = Map.empty, background_refresh_active = Map.empty,
           threads = [], invoked = [], warnings = []\<rparr>"

definition get_ttl_for_key :: "string \<Rightarrow> int" where
  "get_ttl_for_key key =
     (let resource_type = (if CHR ''_'' \<in> set key then lower (hd (split CHR ''_'' key))
                           else ''default'')
      in dict_get CACHE_TTLS resource_type CACHE_TTLS_default)"

text \<open>
  \<^verbatim>\<open>get\<close> returns the value and the state it leaves. A \<^verbatim>\<open>CacheEntry\<close> object is
  always true in a condition, so \<^verbatim>\<open>if entry and ...\<close> tests presence.
\<close>

definition cache_get :: "int \<Rightarrow> string \<Rightarrow> 'a PerformanceCache \<Rightarrow> 'a option \<times> 'a PerformanceCache" where
  "cache_get now key s =
     (case cache s key of
        Some entry \<Rightarrow> (if \<not> is_expired now entry then (data entry, s) else (None, s))
      | None \<Rightarrow> (None, s))"

definition cache_set :: "int \<Rightarrow> string \<Rightarrow> 'a option \<Rightarrow> int option \<Rightarrow> 'a PerformanceCache \<Rightarrow> 'a PerformanceCache" where
  "cache_set now key d ttl s =
     (let ttl_secs = (case ttl of None \<Rightarrow> get_ttl_for_key key | Some t \<Rightarrow> t)
      in s\<lparr>cache := (cache s)(key \<mapsto> \<lparr>data = d, timestamp = now, ttl_seconds = ttl_secs\<rparr>)\<rparr>)"

definition invalidate :: "string \<Rightarrow> 'a PerformanceCache \<Rightarrow> 'a PerformanceCache" where
  "invalidate key s = s\<lparr>cache := (cache s)(key := None)\<rparr>"

definition clear :: "'a PerformanceCache \<Rightarrow> 'a PerformanceCache" where
  "clear s = s\<lparr>cache := Map.empty\<rparr>"

text \<open>
  \<^verbatim>\<open>start_background_refresh\<close>: under the lock, return if the key is in
  \<^verbatim>\<open>_background_refresh_active\<close>, else mark it; then start a thread running \<^verbatim>\<open>refresh_worker\<close>.
\<close>

definition start_background_refresh ::
  "string \<Rightarrow> (string + 'a option) \<Rightarrow> 'a PerformanceCache \<Rightarrow> 'a PerformanceCache" where
  "start_background_refresh key refresh_func s =
     (if background_refresh_active s key \<noteq> None then s
      else s\<lparr>background_refresh_active := (background_refresh_active s)(key \<mapsto> True),
             threads := threads s @ [(key, refresh_func)]\<rparr>)"

text \<open>
  \<^verbatim>\<open>refresh_worker\<close>, the body of the thread: \<^verbatim>\<open>try\<close> the refresh function and
  \<^verbatim>\<open>set\<close>; \<^verbatim>\<open>except Exception\<close> log a warning; \<^verbatim>\<open>finally\<close> unmark the key. The first
  component of the result is the exception that leaves the thread body, if any.
\<close>

definition refresh_worker ::
  "int \<Rightarrow> string \<Rightarrow> (string + 'a option) \<Rightarrow> 'a PerformanceCache \<Rightarrow> string option \<times> 'a PerformanceCache" where
  "refresh_worker now key refresh_func s =
     (let s0 = s\<lparr>invoked := invoked s @ [key]\<rparr>;
          (raised_in_try, s1) =
            (case refresh_func of
               Inr new_data \<Rightarrow> (None, cache_set now key new_data None s0)
             | Inl e \<Rightarrow> (Some e, s0));
          (raised, s2) =
            (case raised_in_try of
               Some e \<Rightarrow> (None, s1\<lparr>warnings := warnings s1 @ [e]\<rparr>)
             | None \<Rightarrow> (None, s1))
      in (raised, s2\<lparr>background_refresh_active := (background_refresh_active s2)(key := None)\<rparr>))"

text \<open>
  The scheduler runs the started threads; here each to completion, in the order they were
  started, at the clock readings given.
\<close>

fun run_threads :: "int \<Rightarrow> 'a PerformanceCache \<Rightarrow> (string \<times> (string + 'a option)) list \<Rightarrow> 'a PerformanceCache" where
  "run_threads now s [] = s"
| "run_threads now s ((key, f) # ts) = run_threads now (snd (refresh_worker now key f s)) ts"

definition join_all :: "int \<Rightarrow> 'a PerformanceCache \<Rightarrow> 'a PerformanceCache" where
  "join_all now s = run_threads now (s\<lparr>threads := []\<rparr>) (threads s)"

section \<open>The batch executor\<close>

text \<open>
  Times in this part are readings of \<^verbatim>\<open>time.time()\<close> and \<^verbatim>\<open>datetime.now()\<close>, counted in
  milliseconds; \<^verbatim>\<open>time.sleep(n)\<close> advances the clock of the thread by \<open>1000 * n\<close>.
  Console output (\<^verbatim>\<open>print\<close>) is not part of the model.
\<close>

subsection \<open>Strings: \<^verbatim>\<open>str.strip\<close>, \<^verbatim>\<open>str(int)\<close>\<close>

definition isspace :: "char \<Rightarrow> bool" where
  "isspace c \<longleftrightarrow> (of_char c :: nat) \<in> {9, 10, 11, 12, 13, 28, 29, 30, 31, 32, 133, 160}"

definition strip :: "string \<Rightarrow> string" where
  "strip s = rev (dropWhile isspace (rev (dropWhile isspace s)))"

function str_nat :: "nat \<Rightarrow> string" where
  "str_nat n =
     (if n < 10 then [''0123456789'' ! n]
      else str_nat (n div 10) @ [''0123456789'' ! (n mod 10)])"
  by pat_completeness auto
termination
  by (relation "measure id") auto

declare str_nat.simps [simp del]

definition str_int :: "int \<Rightarrow> string" where
  "str_int i = (if i < 0 then CHR ''-'' # str_nat (nat (- i)) else str_nat (nat i))"

subsection \<open>Configuration, exceptions, records\<close>

record Config =
  BATCH_COMMAND_RETRY :: nat
  BATCH_RETRY_DELAY :: nat
  BATCH_RETRY_MAX_DELAY :: nat
  WAIT_PORT_READY :: nat

definition config :: Config where
  "config = \<lparr>BATCH_COMMAND_RETRY = 3, BATCH_RETRY_DELAY = 10,
              BATCH_RETRY_MAX_DELAY = 60, WAIT_PORT_READY = 2\<rparr>"

text \<open>
  An exception is botocore's \<^verbatim>\<open>ClientError\<close> (its error code and its \<^verbatim>\<open>str(e)\<close>) or any
  other \<^verbatim>\<open>Exception\<close> (its class name and its \<^verbatim>\<open>str(e)\<close>).
\<close>

datatype exn = ClientError string string | Exception string string

fun str_exn :: "exn \<Rightarrow> string" where
  "str_exn (ClientError code msg) = msg"
| "str_exn (Exception cls msg) = msg"

text \<open>An element of \<^verbatim>\<open>instances\<close>: the dictionary with \<^verbatim>\<open>Name\<close>, \<^verbatim>\<open>raw['InstanceId']\<close>
  and the optional \<^verbatim>\<open>Region\<close>.\<close>

record instance_data =
  Name :: string
  InstanceId :: string
  Region :: "string option"

definition region_of :: "instance_data \<Rightarrow> string" where
  "region_of inst = (case Region inst of Some r \<Rightarrow> r | None \<Rightarrow> ''unknown'')"

record BatchJobResult =
  command :: string
  instance_id :: string
  instance_name :: string
  status :: string
  output' :: string
  error :: string
  execution_time :: int
  timestamp :: int

subsection \<open>The remote command runner seen by one worker\<close>

text \<open>
  What \<^verbatim>\<open>get_command_invocation\<close> returns: \<^verbatim>\<open>Status\<close> and the three fields read with
  \<^verbatim>\<open>.get(..., '')\<close>.
\<close>

record invocation =
  Status :: string
  StandardOutputContent :: "string option"
  StandardErrorContent :: "string option"
  StatusDetails :: "string option"

text \<open>
  The world one worker talks to. \<open>client\<close> is the exception raised by
  \<^verbatim>\<open>session.client('ssm', ...)\<close>, if any; \<open>t0\<close> is the clock when the worker starts;
  \<open>send_command a\<close> is the answer to the \<^verbatim>\<open>send_command\<close> call of attempt \<open>a\<close>
  (the command id or the exception), with the time the call takes;
  \<open>get_command_invocation a k\<close> is the answer to the \<open>k\<close>-th status query of attempt
  \<open>a\<close> (\<open>k\<close> counts from 1, as \<^verbatim>\<open>attempt_count\<close> does), with the time it takes.
\<close>

record ssm =
  client :: "exn option"
  t0 :: int
  send_command :: "nat \<Rightarrow> nat \<times> (exn + string)"
  get_command_invocation :: "nat \<Rightarrow> nat \<Rightarrow> nat \<times> (exn + invocation)"

datatype event = Sleep nat | SendCommand nat | GetCommandInvocation nat nat

text \<open>The state of a worker thread: its clock and the calls it has made so far.\<close>

record wstate =
  clock :: int
  trace :: "event list"

definition sleep :: "nat \<Rightarrow> wstate \<Rightarrow> wstate" where
  "sleep n st = st\<lparr>clock := clock st + 1000 * int n, trace := trace st @ [Sleep n]\<rparr>"

definition call :: "event \<Rightarrow> nat \<Rightarrow> wstate \<Rightarrow> wstate" where
  "call ev latency st = st\<lparr>clock := clock st + int latency, trace := trace st @ [ev]\<rparr>"

subsection \<open>\<^verbatim>\<open>execute_on_instance\<close>\<close>

datatype poll_outcome = PollReturn BatchJobResult | PollRaise exn | PollEnd

definition max_attempts :: nat where
  "max_attempts = 200"

definition get_or_empty :: "string option \<Rightarrow> string" where
  "get_or_empty v = (case v of Some s \<Rightarrow> s | None \<Rightarrow> [])"

definition terminal_status :: "string \<Rightarrow> bool" where
  "terminal_status s \<longleftrightarrow> s \<in> set [''Success'', ''Failed'', ''Cancelled'', ''TimedOut'']"

text \<open>
  One pass through the body of the \<^verbatim>\<open>while\<close> loop of an attempt, after
  \<^verbatim>\<open>attempt_count += 1\<close>: it leaves the loop by \<^verbatim>\<open>return\<close> or by an exception
  (\<open>Stop\<close>), or it sleeps and goes round again, with \<^verbatim>\<open>waited\<close> increased (\<open>Again\<close>).
  The inner \<^verbatim>\<open>except ClientError\<close> sleeps and goes on; any other exception leaves the
  loop, as does the \<^verbatim>\<open>raise Exception(f"Command {status}: {error}")\<close> of a failed
  command that has retries left.
\<close>

datatype poll_step = Stop poll_outcome | Again int

definition poll_body ::
  "Config \<Rightarrow> ssm \<Rightarrow> string \<Rightarrow> instance_data \<Rightarrow> nat \<Rightarrow> int \<Rightarrow> nat \<Rightarrow> wstate
     \<Rightarrow> poll_step \<times> wstate" where
  "poll_body cfg env cmd inst attempt start_time attempt_count st =
     (let (latency, response) = get_command_invocation env attempt attempt_count;
          st1 = call (GetCommandInvocation attempt attempt_count) latency st
      in case response of
           Inr result \<Rightarrow>
             (if terminal_status (Status result) then
                (let execution_time = clock st1 - start_time in
                 if Status result = ''Success'' then
                   (Stop (PollReturn
                      \<lparr>command = cmd, instance_id = InstanceId inst,
                       instance_name = Name inst, status = ''SUCCESS'',
                       output' = strip (get_or_empty (StandardOutputContent result)),
                       error = [], execution_time = execution_time,
                       timestamp = clock st1\<rparr>), st1)
                 else
                   (let err = (if get_or_empty (StandardErrorContent result) \<noteq> []
                               then get_or_empty (StandardErrorContent result)
                               else get_or_empty (StatusDetails result)) in
                    if attempt < BATCH_COMMAND_RETRY cfg then
                      (Stop (PollRaise (Exception ''Exception''
                                          (''Command '' @ Status result @ '': '' @ err))), st1)
                    else
                      (Stop (PollReturn
                         \<lparr>command = cmd, instance_id = InstanceId inst,
                          instance_name = Name inst, status = ''FAILED'',
                          output' = [], error = err,
                          execution_time = execution_time,
                          timestamp = clock st1\<rparr>), st1)))
              else (Again 3, sleep 3 st1))
         | Inl (ClientError error_code msg) \<Rightarrow>
             (if error_code = ''InvocationDoesNotExist'' then (Again 2, sleep 2 st1)
              else (Again 2, sleep (WAIT_PORT_READY cfg) st1))
         | Inl (Exception cls msg) \<Rightarrow> (Stop (PollRaise (Exception cls msg)), st1))"

text \<open>
  The loop \<^verbatim>\<open>while waited < max_wait and attempt_count < max_attempts\<close>; \<open>PollEnd\<close> is
  the loop running out.
\<close>

function poll_loop ::
  "Config \<Rightarrow> ssm \<Rightarrow> string \<Rightarrow> instance_data \<Rightarrow> nat \<Rightarrow> int \<Rightarrow> int \<Rightarrow> int \<Rightarrow> nat \<Rightarrow> wstate
     \<Rightarrow> poll_outcome \<times> wstate" where
  "poll_loop cfg env cmd inst attempt start_time max_wait waited attempt_count st =
     (if waited < max_wait \<and> attempt_count < max_attempts then
        (case poll_body cfg env cmd inst attempt start_time (attempt_count + 1) st of
           (Stop out, st') \<Rightarrow> (out, st')
         | (Again d, st') \<Rightarrow>
             poll_loop cfg env cmd inst attempt start_time max_wait (waited + d)
               (attempt_count + 1) st')
      else (PollEnd, st))"
  by pat_completeness auto
termination
  by (relation "measure (\<lambda>(cfg, env, cmd, inst, attempt, start_time, max_wait, waited,
                            attempt_count, st). max_attempts - attempt_count)") auto

declare poll_loop.simps [simp del]

text \<open>
  One pass through the body of \<^verbatim>\<open>for attempt in range(max_retries + 1)\<close>: it either
  returns from \<^verbatim>\<open>execute_on_instance\<close> or goes on to the next attempt
  (\<^verbatim>\<open>continue\<close>). \<^verbatim>\<open>start_time\<close> is read at the top of the pass, before the sleep.
\<close>

datatype attempt_outcome = Return BatchJobResult | Continue

definition failed_result :: "string \<Rightarrow> instance_data \<Rightarrow> string \<Rightarrow> string \<Rightarrow> int \<Rightarrow> int \<Rightarrow> BatchJobResult" where
  "failed_result cmd inst st err exec_time now =
     \<lparr>command = cmd, instance_id = InstanceId inst, instance_name = Name inst,
      status = st, output' = [], error = err, execution_time = exec_time, timestamp = now\<rparr>"

definition retry_delay :: "Config \<Rightarrow> nat \<Rightarrow> nat" where
  "retry_delay cfg attempt = min (BATCH_RETRY_DELAY cfg * attempt) (BATCH_RETRY_MAX_DELAY cfg)"

definition attempt_body ::
  "Config \<Rightarrow> ssm \<Rightarrow> string \<Rightarrow> int \<Rightarrow> instance_data \<Rightarrow> nat \<Rightarrow> wstate \<Rightarrow> attempt_outcome \<times> wstate" where
  "attempt_body cfg env cmd timeout_seconds inst attempt st =
     (let max_retries = BATCH_COMMAND_RETRY cfg;
          start_time = clock st;
          st1 = (if attempt > 0 then sleep (retry_delay cfg attempt) st else st);
          (latency, response) = send_command env attempt;
          st2 = call (SendCommand attempt) latency st1
      in case response of
           Inr command_id \<Rightarrow>
             (let max_wait = timeout_seconds + 30 in
              case poll_loop cfg env cmd inst attempt start_time max_wait 0 0 st2 of
                (PollReturn r, st3) \<Rightarrow> (Return r, st3)
              | (PollEnd, st3) \<Rightarrow>
                  (if attempt < max_retries then (Continue, st3)
                   else (Return (failed_result cmd inst ''TIMEOUT''
                                   (''Command timed out after '' @ str_int max_wait @ '' seconds'')
                                   (clock st3 - start_time) (clock st3)), st3))
              | (PollRaise (ClientError code msg), st3) \<Rightarrow>
                  (if attempt < max_retries then (Continue, st3)
                   else (Return (failed_result cmd inst ''FAILED'' msg
                                   (clock st3 - start_time) (clock st3)), st3))
              | (PollRaise (Exception cls msg), st3) \<Rightarrow>
                  (if attempt < max_retries then (Continue, st3)
                   else (Return (failed_result cmd inst ''FAILED'' msg
                                   (clock st3 - start_time) (clock st3)), st3)))
         | Inl (ClientError code msg) \<Rightarrow>
             (if attempt < max_retries then (Continue, st2)
              else (Return (failed_result cmd inst ''FAILED'' msg
                              (clock st2 - start_time) (clock st2)), st2))
         | Inl (Exception cls msg) \<Rightarrow>
             (if attempt < max_retries then (Continue, st2)
              else (Return (failed_result cmd inst ''FAILED'' msg
                              (clock st2 - start_time) (clock st2)), st2)))"

text \<open>
  The \<^verbatim>\<open>for\<close> loop from \<open>attempt\<close> on. Falling out of the loop is Python's implicit
  \<^verbatim>\<open>return None\<close>.
\<close>

function attempt_loop ::
  "Config \<Rightarrow> ssm \<Rightarrow> string \<Rightarrow> int \<Rightarrow> instance_data \<Rightarrow> nat \<Rightarrow> wstate
     \<Rightarrow> BatchJobResult option \<times> wstate" where
  "attempt_loop cfg env cmd timeout_seconds inst attempt st =
     (if attempt < BATCH_COMMAND_RETRY cfg + 1 then
        (case attempt_body cfg env cmd timeout_seconds inst attempt st of
           (Return r, st') \<Rightarrow> (Some r, st')
         | (Continue, st') \<Rightarrow> attempt_loop cfg env cmd timeout_seconds inst (Suc attempt) st')
      else (None, st))"
  by pat_completeness auto
termination
  by (relation "measure (\<lambda>(cfg, env, cmd, timeout_seconds, inst, attempt, st).
                            BATCH_COMMAND_RETRY cfg + 1 - attempt)") auto

declare attempt_loop.simps [simp del]

text \<open>
  \<^verbatim>\<open>execute_on_instance\<close>: \<open>Inl\<close> is an exception that leaves the function (the client
  cannot be created: that call is outside the \<^verbatim>\<open>try\<close>); \<open>Inr\<close> is the value returned,
  with the final state of the worker.
\<close>

definition execute_on_instance ::
  "Config \<Rightarrow> ssm \<Rightarrow> string \<Rightarrow> int \<Rightarrow> instance_data \<Rightarrow> exn + (BatchJobResult option \<times> wstate)" where
  "execute_on_instance cfg env cmd timeout_seconds inst =
     (case client env of
        Some e \<Rightarrow> Inl e
      | None \<Rightarrow> Inr (attempt_loop cfg env cmd timeout_seconds inst 0 \<lparr>clock = t0 env, trace = []\<rparr>))"

subsection \<open>\<^verbatim>\<open>BatchJobManager\<close>\<close>

text \<open>
  The world a batch run talks to. A run of \<^verbatim>\<open>execute_batch_command\<close> has a number
  \<open>run\<close>: 0 for the call of the caller, \<open>run + 1\<close> for the call it makes on itself.
  \<^item> \<open>describe_instance_information run region ids\<close>: the answer of the SSM status query of
    that run for a region, as pairs of \<^verbatim>\<open>InstanceId\<close> and \<^verbatim>\<open>PingStatus\<close>, or the
    exception raised inside the \<^verbatim>\<open>try\<close> of \<^verbatim>\<open>_validate_ssm_instances\<close>;
  \<^item> \<open>ssm_of run i\<close>: the world of the worker of the \<open>i\<close>-th validated instance;
  \<^item> \<open>completion run\<close>: the order in which the futures complete (see \<open>as_completed\<close>);
  \<^item> \<open>datetime_now run\<close>: \<^verbatim>\<open>datetime.now()\<close> in the orchestrating thread when the pool is done;
  \<^item> \<open>write_fails run\<close>: whether opening the results file for writing raises.
\<close>

record env =
  describe_instance_information :: "nat \<Rightarrow> string \<Rightarrow> string list \<Rightarrow> exn + (string \<times> string) list"
  ssm_of :: "nat \<Rightarrow> nat \<Rightarrow> ssm"
  completion :: "nat \<Rightarrow> nat list"
  datetime_now :: "nat \<Rightarrow> int"
  write_fails :: "nat \<Rightarrow> bool"

text \<open>
  The state of a \<^verbatim>\<open>BatchJobManager\<close> and of the file \<^verbatim>\<open>BATCH_RESULTS_PATH\<close>: the list
  last written to it.
\<close>

record manager =
  results_history :: "BatchJobResult list"
  results_file :: "BatchJobResult list"

text \<open>\<^verbatim>\<open>regions_to_check\<close>: a dictionary in insertion order, region to its instances.\<close>

fun regions_add :: "instance_data \<Rightarrow> (string \<times> instance_data list) list \<Rightarrow> (string \<times> instance_data list) list" where
  "regions_add inst [] = [(region_of inst, [inst])]"
| "regions_add inst ((r, insts) # rest) =
     (if r = region_of inst then (r, insts @ [inst]) # rest
      else (r, insts) # regions_add inst rest)"

definition regions_to_check :: "instance_data list \<Rightarrow> (string \<times> instance_data list) list" where
  "regions_to_check instances = foldl (\<lambda>d inst. regions_add inst d) [] instances"

definition validate_region :: "env \<Rightarrow> nat \<Rightarrow> string \<times> instance_data list \<Rightarrow> instance_data list" where
  "validate_region w run rg =
     (case rg of (region, region_instances) \<Rightarrow>
        (case describe_instance_information w run region (map InstanceId region_instances) of
           Inr info \<Rightarrow>
             (let online_instances = map fst (filter (\<lambda>(i, ping). ping = ''Online'') info)
              in filter (\<lambda>inst. InstanceId inst \<in> set online_instances) region_instances)
         | Inl e \<Rightarrow> region_instances))"

definition validate_ssm_instances :: "env \<Rightarrow> nat \<Rightarrow> instance_data list \<Rightarrow> instance_data list" where
  "validate_ssm_instances w run instances =
     concat (map (validate_region w run) (regions_to_check instances))"

text \<open>
  \<^verbatim>\<open>as_completed\<close> yields every future once, in the order of completion: the \<open>n\<close>-th
  number of the order picks, among the futures still running, the one that completes next
  (when the order runs out, the rest complete in the order of submission).
\<close>

function as_completed :: "nat list \<Rightarrow> 'a list \<Rightarrow> 'a list" where
  "as_completed order [] = []"
| "as_completed [] (x # xs) = x # xs"
| "as_completed (c # cs) (x # xs) =
     (let i = c mod length (x # xs)
      in (x # xs) ! i # as_completed cs (take i (x # xs) @ drop (Suc i) (x # xs)))"
  by pat_completeness auto
termination
  by (relation "measure (\<lambda>(order, futs). length futs)") auto

text \<open>
  What the loop over the completed futures appends to \<^verbatim>\<open>results\<close> for one future. A
  returned value is appended as it is; if it were \<^verbatim>\<open>None\<close>, the \<^verbatim>\<open>print\<close> after the
  \<^verbatim>\<open>append\<close> would raise \<^verbatim>\<open>AttributeError\<close> and the handler would append an error
  result as well. An exception of the worker gives the error result alone.
\<close>

definition error_result :: "string \<Rightarrow> instance_data \<Rightarrow> exn \<Rightarrow> int \<Rightarrow> BatchJobResult" where
  "error_result cmd inst e t =
     failed_result cmd inst ''FAILED'' (''Executor error: '' @ str_exn e) 0 t"

definition NoneType_status :: exn where
  "NoneType_status =
     Exception ''AttributeError''
       (CHR 0x27 # ''NoneType'' @ CHR 0x27 # '' object has no attribute '' @
        CHR 0x27 # ''status'' @ [CHR 0x27])"

definition appended ::
  "string \<Rightarrow> int \<Rightarrow> instance_data \<times> (exn + (BatchJobResult option \<times> wstate)) \<Rightarrow> BatchJobResult option list" where
  "appended cmd t fut =
     (case fut of
        (inst, Inr (Some r, st)) \<Rightarrow> [Some r]
      | (inst, Inr (None, st)) \<Rightarrow> [None, Some (error_result cmd inst NoneType_status t)]
      | (inst, Inl e) \<Rightarrow> [Some (error_result cmd inst e t)])"

definition submit_all ::
  "Config \<Rightarrow> env \<Rightarrow> nat \<Rightarrow> string \<Rightarrow> int \<Rightarrow> instance_data list
     \<Rightarrow> (instance_data \<times> (exn + (BatchJobResult option \<times> wstate))) list" where
  "submit_all cfg w run cmd timeout_seconds validated_instances =
     map (\<lambda>(i, inst). (inst, execute_on_instance cfg (ssm_of w run i) cmd timeout_seconds inst))
       (enumerate 0 validated_instances)"

definition run_pool ::
  "Config \<Rightarrow> env \<Rightarrow> nat \<Rightarrow> string \<Rightarrow> int \<Rightarrow> instance_data list \<Rightarrow> BatchJobResult option list" where
  "run_pool cfg w run cmd timeout_seconds validated_instances =
     concat (map (appended cmd (datetime_now w run))
               (as_completed (completion w run)
                  (submit_all cfg w run cmd timeout_seconds validated_instances)))"

text \<open>\<^verbatim>\<open>next(inst for inst in validated_instances if ...)\<close>: \<open>None\<close> is \<^verbatim>\<open>StopIteration\<close>.\<close>

definition failed_instances_of :: "instance_data list \<Rightarrow> BatchJobResult list \<Rightarrow> instance_data option list" where
  "failed_instances_of validated_instances results =
     map (\<lambda>r. find (\<lambda>inst. InstanceId inst = instance_id r) validated_instances)
       (filter (\<lambda>r. status r \<noteq> ''SUCCESS'') results)"

text \<open>
  The inner loop of the replacement: the first entry of \<^verbatim>\<open>results\<close> with the instance id
  of \<^verbatim>\<open>retry_result\<close> is replaced, then \<^verbatim>\<open>break\<close>.
\<close>

fun replace_first :: "BatchJobResult \<Rightarrow> BatchJobResult list \<Rightarrow> BatchJobResult list" where
  "replace_first retry_result [] = []"
| "replace_first retry_result (r # rs) =
     (if instance_id r = instance_id retry_result then retry_result # rs
      else r # replace_first retry_result rs)"

definition replace_failed :: "BatchJobResult list \<Rightarrow> BatchJobResult list \<Rightarrow> BatchJobResult list" where
  "replace_failed results retry_results =
     foldl (\<lambda>res retry_result. replace_first retry_result res) results retry_results"

text \<open>
  \<^verbatim>\<open>save_results_history\<close>: the last 100 entries are written; a failure to write is
  logged and the file keeps what it had.
\<close>

definition save_results_history :: "env \<Rightarrow> nat \<Rightarrow> manager \<Rightarrow> manager" where
  "save_results_history w run m =
     (let recent_results = drop (length (results_history m) - 100) (results_history m)
      in if write_fails w run then m else m\<lparr>results_file := recent_results\<rparr>)"

definition store :: "env \<Rightarrow> nat \<Rightarrow> BatchJobResult list \<Rightarrow> manager \<Rightarrow> manager" where
  "store w run results m =
     save_results_history w run (m\<lparr>results_history := results_history m @ results\<rparr>)"

text \<open>
  \<^verbatim>\<open>execute_batch_command\<close>. \<open>stdin\<close> holds the lines the console still has to give:
  \<^verbatim>\<open>input()\<close> takes the first, and raises \<^verbatim>\<open>EOFError\<close> when there is none. \<open>Inl\<close> is
  an exception that leaves the function.
\<close>

definition EOFError :: exn where
  "EOFError = Exception ''EOFError'' ''EOF when reading a line''"

definition StopIteration :: exn where
  "StopIteration = Exception ''StopIteration'' []"

function execute_batch_command ::
  "Config \<Rightarrow> env \<Rightarrow> nat \<Rightarrow> instance_data list \<Rightarrow> string \<Rightarrow> int \<Rightarrow> string list \<Rightarrow> manager
     \<Rightarrow> exn + (BatchJobResult list \<times> manager)" where
  "execute_batch_command cfg w run instances cmd timeout_seconds stdin m =
     (let validated_instances = validate_ssm_instances w run instances in
      if validated_instances = [] then Inr ([], m)
      else
        (let collected = run_pool cfg w run cmd timeout_seconds validated_instances in
         if None \<in> set collected then Inl NoneType_status
         else
           (let results = map the collected;
                success_count = length (filter (\<lambda>r. status r = ''SUCCESS'') results);
                failed_count = length results - success_count
            in if failed_count > 0 then
                 (let failed_instances = failed_instances_of validated_instances results in
                  if None \<in> set failed_instances then Inl StopIteration
                  else
                    (case stdin of
                       [] \<Rightarrow> Inl EOFError
                     | line # rest \<Rightarrow>
                         (if lower (strip line) = ''y'' then
                            (case execute_batch_command cfg w (Suc run) (map the failed_instances)
                                    cmd timeout_seconds rest m of
                               Inl e \<Rightarrow> Inl e
                             | Inr (retry_results, m') \<Rightarrow>
                                 (let results' = replace_failed results retry_results
                                  in Inr (results', store w run results' m')))
                          else Inr (results, store w run results m))))
               else Inr (results, store w run results m))))"
  by pat_completeness auto
termination
  by (relation "measure (\<lambda>(cfg, w, run, instances, cmd, timeout_seconds, stdin, m). length stdin)")
     auto

declare execute_batch_command.simps [simp del]

subsection \<open>The TTL resolution as the specification words it\<close>

text \<open>
  The resource class of a key is the text before the first separator, in lower case; its
  TTL is the one the policy gives that class; the default TTL applies when the class is
  not one of the policy, and to a key with no separator.
\<close>

definition policy_class :: "string \<Rightarrow> bool" where
  "policy_class p \<longleftrightarrow> p \<in> set (map fst CACHE_TTLS)"

definition resolve_from_policy :: "string \<Rightarrow> int" where
  "resolve_from_policy key =
     (let prefix = lower (takeWhile (\<lambda>c. c \<noteq> CHR ''_'') key)
      in if CHR ''_'' \<in> set key \<and> policy_class prefix then the (map_of CACHE_TTLS prefix)
         else CACHE_TTLS_default)"

subsection \<open>Observations on a worker\<close>

text \<open>
  The state in which the worker enters attempt \<open>n\<close>, if it gets that far: every earlier
  pass through the loop body ended in \<^verbatim>\<open>continue\<close>.
\<close>

fun attempt_entry :: "Config \<Rightarrow> ssm \<Rightarrow> string \<Rightarrow> int \<Rightarrow> instance_data \<Rightarrow> nat \<Rightarrow> wstate option" where
  "attempt_entry cfg env cmd timeout_seconds inst 0 = Some \<lparr>clock = t0 env, trace = []\<rparr>"
| "attempt_entry cfg env cmd timeout_seconds inst (Suc n) =
     (case attempt_entry cfg env cmd timeout_seconds inst n of
        None \<Rightarrow> None
      | Some st \<Rightarrow>
          (case attempt_body cfg env cmd timeout_seconds inst n st of
             (Continue, st') \<Rightarrow> Some st'
           | (Return r, st') \<Rightarrow> None))"

text \<open>
  What the answers of the command runner make of attempt \<open>a\<close>, following the state
  machine of the specification and not the code of the worker: the attempt is a
  \<open>SubmitError\<close> when \<^verbatim>\<open>send_command\<close> raises; otherwise the status is queried until an
  answer is terminal (\<open>Succeeds\<close> on \<^verbatim>\<open>Success\<close>, \<open>Fails\<close> on \<^verbatim>\<open>Failed\<close>,
  \<^verbatim>\<open>Cancelled\<close> or \<^verbatim>\<open>TimedOut\<close>), until a query raises something other than a
  \<^verbatim>\<open>ClientError\<close> (\<open>Aborts\<close>), or until the wait budget or the number of queries is
  used up (\<open>TimesOut\<close>); a query answered with a status that is not terminal costs 3
  seconds of the budget, one answered with a \<^verbatim>\<open>ClientError\<close> costs 2.
\<close>

datatype verdict = Succeeds | Fails | Aborts | TimesOut | SubmitError

function poll_verdict :: "ssm \<Rightarrow> nat \<Rightarrow> int \<Rightarrow> int \<Rightarrow> nat \<Rightarrow> verdict" where
  "poll_verdict env attempt max_wait waited k =
     (if waited < max_wait \<and> k < max_attempts then
        (case snd (get_command_invocation env attempt (k + 1)) of
           Inr result \<Rightarrow>
             (if terminal_status (Status result) then
                (if Status result = ''Success'' then Succeeds else Fails)
              else poll_verdict env attempt max_wait (waited + 3) (k + 1))
         | Inl (ClientError code msg) \<Rightarrow> poll_verdict env attempt max_wait (waited + 2) (k + 1)
         | Inl (Exception cls msg) \<Rightarrow> Aborts)
      else TimesOut)"
  by pat_completeness auto
termination
  by (relation "measure (\<lambda>(env, attempt, max_wait, waited, k). max_attempts - k)") auto

declare poll_verdict.simps [simp del]

definition attempt_verdict :: "ssm \<Rightarrow> int \<Rightarrow> nat \<Rightarrow> verdict" where
  "attempt_verdict env timeout_seconds attempt =
     (case snd (send_command env attempt) of
        Inl e \<Rightarrow> SubmitError
      | Inr command_id \<Rightarrow> poll_verdict env attempt (timeout_seconds + 30) 0 0)"

text \<open>The status reported for a target whose last attempt had this verdict.\<close>

definition final_status :: "verdict \<Rightarrow> string" where
  "final_status v = (if v = TimesOut then ''TIMEOUT'' else ''FAILED'')"

fun is_send :: "event \<Rightarrow> bool" where
  "is_send (SendCommand a) = True"
| "is_send _ = False"

fun is_poll :: "event \<Rightarrow> bool" where
  "is_poll (GetCommandInvocation a k) = True"
| "is_poll _ = False"

subsection \<open>Observations on a batch run\<close>

text \<open>A future of the pool: an instance with what its worker did.\<close>

definition future_of :: "Config \<Rightarrow> string \<Rightarrow> int \<Rightarrow> instance_data \<times> (exn + (BatchJobResult option \<times> wstate)) \<Rightarrow> bool" where
  "future_of cfg cmd timeout_seconds fut \<longleftrightarrow>
     (\<exists>env. snd fut = execute_on_instance cfg env cmd timeout_seconds (fst fut))"

subsection \<open>Example worlds\<close>

text \<open>
  An instance; a command runner whose \<^verbatim>\<open>send_command\<close> is always rejected with a
  \<^verbatim>\<open>ClientError\<close> (and whose status queries would not find the invocation); and one
  that accepts the command but cannot be reached for the status queries, which raise an
  exception that is not a \<^verbatim>\<open>ClientError\<close>. Calls take no time in both.
\<close>

definition inst0 :: instance_data where
  "inst0 = \<lparr>Name = ''web-1'', InstanceId = ''i-0a'', Region = Some ''eu-west-1''\<rparr>"

definition ssm_rejecting :: ssm where
  "ssm_rejecting =
     \<lparr>client = None, t0 = 0,
      send_command = (\<lambda>a. (0, Inl (ClientError ''ThrottlingException'' ''Rate exceeded''))),
      get_command_invocation = (\<lambda>a k. (0, Inl (ClientError ''InvocationDoesNotExist'' [])))\<rparr>"

definition ssm_unreachable :: ssm where
  "ssm_unreachable =
     \<lparr>client = None, t0 = 0,
      send_command = (\<lambda>a. (0, Inr ''cmd-1'')),
      get_command_invocation =
        (\<lambda>a k. (0, Inl (Exception ''EndpointConnectionError'' ''Could not connect'')))\<rparr>"

text \<open>
  Three more command runners, all accepting the command: one whose command fails on every
  attempt, one whose command never reaches a terminal status, and one whose command fails
  on the first attempt and succeeds from the second on.
\<close>

definition ssm_failing :: ssm where
  "ssm_failing =
     \<lparr>client = None, t0 = 0,
      send_command = (\<lambda>a. (0, Inr ''cmd-1'')),
      get_command_invocation =
        (\<lambda>a k. (0, Inr \<lparr>Status = ''Failed'', StandardOutputContent = Some [],
                         StandardErrorContent = Some ''disk full'',
                         StatusDetails = Some ''Failed''\<rparr>))\<rparr>"

definition ssm_running :: ssm where
  "ssm_running =
     \<lparr>client = None, t0 = 0,
      send_command = (\<lambda>a. (0, Inr ''cmd-1'')),
      get_command_invocation =
        (\<lambda>a k. (0, Inr \<lparr>Status = ''InProgress'', StandardOutputContent = None,
                         StandardErrorContent = None, StatusDetails = None\<rparr>))\<rparr>"

definition ssm_recovering :: ssm where
  "ssm_recovering =
     \<lparr>client = None, t0 = 0,
      send_command = (\<lambda>a. (0, Inr ''cmd-1'')),
      get_command_invocation =
        (\<lambda>a k. if a = 0
                then (0, Inr \<lparr>Status = ''Failed'', StandardOutputContent = Some [],
                              StandardErrorContent = Some ''agent not ready'',
                              StatusDetails = Some ''Failed''\<rparr>)
                else (0, Inr \<lparr>Status = ''Success'', StandardOutputContent = Some '' up 3 days '',
                              StandardErrorContent = Some [], StatusDetails = Some ''Success''\<rparr>))\<rparr>"

text \<open>
  A second instance, and a world for a batch run: every instance is reported online, no
  worker can create its client (the exception names the run and, after run 0, the worker),
  futures complete in the order of submission, and the results file can be written.
\<close>

definition inst1 :: instance_data where
  "inst1 = \<lparr>Name = ''web-2'', InstanceId = ''i-0b'', Region = Some ''eu-west-1''\<rparr>"

definition world_down :: env where
  "world_down =
     \<lparr>describe_instance_information = (\<lambda>run region ids. Inr (map (\<lambda>i. (i, ''Online'')) ids)),
      ssm_of = (\<lambda>run i. ssm_rejecting
                 \<lparr>client := Some (Exception ''EndpointConnectionError''
                                   (if run = 0 then ''down'' else if i = 0 then ''down (a)'' else ''down (b)''))\<rparr>),
      completion = (\<lambda>run. []),
      datetime_now = (\<lambda>run. int run),
      write_fails = (\<lambda>run. False)\<rparr>"

definition manager0 :: manager where
  "manager0 = \<lparr>results_history = [], results_file = []\<rparr>"

section \<open>Properties of the cache\<close>

lemma split_nonempty: "split sep key \<noteq> []"
  by (induction key) (auto split: list.splits)

lemma hd_split: "hd (split sep key) = takeWhile (\<lambda>c. c \<noteq> sep) key"
  by (induction key) (auto simp: split_nonempty split: list.splits)

lemma takeWhile_class:
  "CHR ''_'' \<notin> set p \<Longrightarrow> takeWhile (\<lambda>c. c \<noteq> CHR ''_'') (p @ CHR ''_'' # rest) = p"
  by (induction p) auto

lemma map_of_policy: "policy_class p \<Longrightarrow> map_of CACHE_TTLS p \<noteq> None"
  unfolding policy_class_def by (simp add: map_of_eq_None_iff)

lemma map_of_not_policy: "\<not> policy_class p \<Longrightarrow> map_of CACHE_TTLS p = None"
  unfolding policy_class_def by (simp add: map_of_eq_None_iff)

lemma CACHE_TTLS_default_300: "CACHE_TTLS_default = 300"
  by (simp add: CACHE_TTLS_default_def CACHE_TTLS_def)

lemma get_ttl_resolve: "get_ttl_for_key key = resolve_from_policy key"
proof (cases "CHR ''_'' \<in> set key")
  case False
  then show ?thesis
    by (simp add: get_ttl_for_key_def resolve_from_policy_def dict_get_def
          CACHE_TTLS_default_def CACHE_TTLS_def)
next
  case sep: True
  show ?thesis
  proof (cases "policy_class (lower (takeWhile (\<lambda>c. c \<noteq> CHR ''_'') key))")
    case True
    with map_of_policy [OF True] sep show ?thesis
      by (auto simp add: get_ttl_for_key_def resolve_from_policy_def dict_get_def hd_split Let_def)
  next
    case False
    with map_of_not_policy [OF False] sep show ?thesis
      by (auto simp add: get_ttl_for_key_def resolve_from_policy_def dict_get_def hd_split Let_def)
  qed
qed

lemma ttl_prefix:
  "CHR ''_'' \<notin> set p \<Longrightarrow>
   get_ttl_for_key (p @ CHR ''_'' # rest) = dict_get CACHE_TTLS (lower p) CACHE_TTLS_default"
  by (simp add: get_ttl_for_key_def hd_split takeWhile_class)

lemma ttl_cloudwatch: "dict_get CACHE_TTLS (lower ''cloudwatch'') CACHE_TTLS_default = 300"
  by code_simp

lemma ttl_s3: "dict_get CACHE_TTLS (lower ''s3'') CACHE_TTLS_default = 300"
  by code_simp

lemma ttl_classes_with_separator:
  "get_ttl_for_key (''cloudwatch_dashboards_'' @ rest) = 300 \<and>
   get_ttl_for_key (''cloudwatch_alarms_'' @ rest) = 300 \<and>
   get_ttl_for_key (''cloudwatch_logs_'' @ rest) = 300 \<and>
   get_ttl_for_key (''s3_buckets_'' @ rest) = 300 \<and>
   get_ttl_for_key (''s3_objects_'' @ rest) = 300"
  using ttl_prefix [of "''cloudwatch''" "''dashboards_'' @ rest"]
        ttl_prefix [of "''cloudwatch''" "''alarms_'' @ rest"]
        ttl_prefix [of "''cloudwatch''" "''logs_'' @ rest"]
        ttl_prefix [of "''s3''" "''buckets_'' @ rest"]
        ttl_prefix [of "''s3''" "''objects_'' @ rest"]
  by (simp add: ttl_cloudwatch ttl_s3)

lemma invoked_run_threads: "invoked (run_threads t s ts) = invoked s @ map fst ts"
  by (induction ts arbitrary: s)
     (auto simp: refresh_worker_def cache_set_def Let_def split: sum.splits prod.splits)

lemma invoked_join_all: "invoked (join_all t s) = invoked s @ map fst (threads s)"
  by (simp add: join_all_def invoked_run_threads)

text \<open>
  C3 (no duplicate refresh). When the key is already in \<^verbatim>\<open>_background_refresh_active\<close>,
  \<^verbatim>\<open>start_background_refresh\<close> returns the state as it is: no thread is started, the
  refresh function is not invoked, and neither dictionary changes. Hence, from a state
  where the key is not marked, a second call for the key made before the first refresh has
  finished changes nothing, and once the started threads have run the refresh function has
  been invoked exactly once more for that key than without the two calls.
\<close>

theorem no_duplicate_refresh:
  "(background_refresh_active s key \<noteq> None \<longrightarrow> start_background_refresh key f s = s) \<and>
   (background_refresh_active s key = None \<longrightarrow>
      threads (start_background_refresh key f s) = threads s @ [(key, f)] \<and>
      start_background_refresh key g (start_background_refresh key f s)
        = start_background_refresh key f s \<and>
      invoked (join_all t (start_background_refresh key g (start_background_refresh key f s)))
        = invoked (join_all t s) @ [key])"
  by (simp add: start_background_refresh_def invoked_join_all)

theorem no_duplicate_refresh_witness:
  "background_refresh_active (start_background_refresh ''k'' (Inr (Some (1::nat))) init) ''k'' \<noteq> None \<and>
   start_background_refresh ''k'' (Inr (Some 2)) (start_background_refresh ''k'' (Inr (Some (1::nat))) init)
     = start_background_refresh ''k'' (Inr (Some 1)) init \<and>
   background_refresh_active (init :: nat PerformanceCache) ''k'' = None \<and>
   invoked (join_all 0 (start_background_refresh ''k'' (Inr (Some 2))
              (start_background_refresh ''k'' (Inr (Some (1::nat))) init))) = [''k'']"
  using no_duplicate_refresh [of "start_background_refresh ''k'' (Inr (Some (1::nat))) init"
          "''k''" "Inr (Some 2)"]
        no_duplicate_refresh [of "init :: nat PerformanceCache" "''k''" "Inr (Some 1)"
          "Inr (Some 2)" 0]
  by (simp add: start_background_refresh_def init_def join_all_def)

text \<open>
  C4 (cache TTL semantics). After \<^verbatim>\<open>set(key, v, ttl=T)\<close> at time \<open>t\<close>, \<^verbatim>\<open>get(key)\<close> at
  the same instant returns \<open>v\<close> (a TTL is a duration, \<open>0 \<le> T\<close>), as it does at any
  time \<open>t'\<close> with \<open>t' - t\<close> at most \<open>T\<close> seconds; once \<open>t' - t\<close> exceeds \<open>T\<close> seconds it
  returns \<^verbatim>\<open>None\<close>. An entry is expired iff \<open>now - timestamp > ttl\<close>, and \<^verbatim>\<open>get\<close> on an
  expired entry returns \<^verbatim>\<open>None\<close>.
\<close>

theorem cache_ttl_semantics:
  "(0 \<le> T \<longrightarrow> fst (cache_get t key (cache_set t key v (Some T) s)) = v) \<and>
   (t' - t \<le> timedelta_seconds T \<longrightarrow> fst (cache_get t' key (cache_set t key v (Some T) s)) = v) \<and>
   (t' - t > timedelta_seconds T \<longrightarrow> fst (cache_get t' key (cache_set t key v (Some T) s)) = None) \<and>
   (is_expired t' entry \<longleftrightarrow> t' - CacheEntry.timestamp entry > 1000000 * ttl_seconds entry) \<and>
   (cache s key = Some entry \<and> is_expired t' entry \<longrightarrow> fst (cache_get t' key s) = None)"
  by (auto simp: cache_get_def cache_set_def is_expired_def timedelta_seconds_def)

theorem cache_ttl_semantics_witness:
  "(0::int) \<le> 2 \<and>
   fst (cache_get 5000000 ''instances_p_r1''
          (cache_set 5000000 ''instances_p_r1'' (Some ''x'') (Some 2) init)) = Some ''x'' \<and>
   7000000 - 5000000 \<le> timedelta_seconds 2 \<and>
   fst (cache_get 7000000 ''instances_p_r1''
          (cache_set 5000000 ''instances_p_r1'' (Some ''x'') (Some 2) init)) = Some ''x'' \<and>
   8000000 - 5000000 > timedelta_seconds 2 \<and>
   fst (cache_get 8000000 ''instances_p_r1''
          (cache_set 5000000 ''instances_p_r1'' (Some ''x'') (Some 2) init)) = None \<and>
   cache (cache_set 5000000 ''instances_p_r1'' (Some ''x'') (Some 2) init) ''instances_p_r1''
     = Some \<lparr>data = Some ''x'', CacheEntry.timestamp = 5000000, ttl_seconds = 2\<rparr> \<and>
   is_expired 8000000 \<lparr>data = Some ''x'', CacheEntry.timestamp = 5000000, ttl_seconds = 2\<rparr>"
  using cache_ttl_semantics [of 2 5000000 "''instances_p_r1''" "Some ''x''" init 7000000]
        cache_ttl_semantics [of 2 5000000 "''instances_p_r1''" "Some ''x''" init 8000000
          "\<lparr>data = Some ''x'', CacheEntry.timestamp = 5000000, ttl_seconds = 2\<rparr>"]
  by (simp add: timedelta_seconds_def cache_set_def)

text \<open>
  C5 (refresh failure isolation). When the refresh function raises, no exception leaves
  \<^verbatim>\<open>refresh_worker\<close>, the dictionary \<^verbatim>\<open>_cache\<close> is what it was, and \<^verbatim>\<open>get\<close> returns for
  every key and at every time what it returned before; and whether the refresh function
  raises or returns, no exception leaves the worker and the key is no longer in
  \<^verbatim>\<open>_background_refresh_active\<close> when it ends.
\<close>

theorem refresh_failure_isolation:
  "fst (refresh_worker t key (Inl e) s) = None \<and>
   cache (snd (refresh_worker t key (Inl e) s)) = cache s \<and>
   fst (cache_get t' k (snd (refresh_worker t key (Inl e) s))) = fst (cache_get t' k s) \<and>
   fst (refresh_worker t key f s) = None \<and>
   background_refresh_active (snd (refresh_worker t key f s)) key = None"
  by (auto simp: refresh_worker_def cache_get_def cache_set_def Let_def
           split: sum.splits option.splits)

text \<open>
  C6 (TTL policy resolution). \<^verbatim>\<open>set(key, value)\<close> without a TTL stores the entry with the
  TTL the specification's resolution gives: \<^verbatim>\<open>_get_ttl_for_key\<close> is that resolution. In
  particular a key with no separator gets the default TTL, and so does every key whose
  resource class is one of the five policy classes that contain the separator.
\<close>

theorem ttl_policy_resolution:
  "cache (cache_set t key v None s) key
     = Some \<lparr>data = v, CacheEntry.timestamp = t, ttl_seconds = resolve_from_policy key\<rparr> \<and>
   get_ttl_for_key key = resolve_from_policy key \<and>
   (CHR ''_'' \<notin> set key \<longrightarrow> get_ttl_for_key key = CACHE_TTLS_default) \<and>
   get_ttl_for_key (''cloudwatch_dashboards_'' @ rest) = CACHE_TTLS_default \<and>
   get_ttl_for_key (''cloudwatch_alarms_'' @ rest) = CACHE_TTLS_default \<and>
   get_ttl_for_key (''cloudwatch_logs_'' @ rest) = CACHE_TTLS_default \<and>
   get_ttl_for_key (''s3_buckets_'' @ rest) = CACHE_TTLS_default \<and>
   get_ttl_for_key (''s3_objects_'' @ rest) = CACHE_TTLS_default"
  using ttl_classes_with_separator [of rest]
  by (simp add: cache_set_def get_ttl_resolve [symmetric] CACHE_TTLS_default_300)
     (simp add: get_ttl_for_key_def dict_get_def CACHE_TTLS_default_300 CACHE_TTLS_def)

theorem ttl_policy_resolution_witness:
  "CHR ''_'' \<notin> set ''regions'' \<and> get_ttl_for_key ''regions'' = CACHE_TTLS_default \<and>
   get_ttl_for_key ''regions'' = 300 \<and>
   resolve_from_policy ''instances_prod_r1'' = 120 \<and>
   cache (cache_set 7 ''instances_prod_r1'' (Some ''x'') None init) ''instances_prod_r1''
     = Some \<lparr>data = Some ''x'', CacheEntry.timestamp = 7, ttl_seconds = 120\<rparr>"
proof -
  have r: "get_ttl_for_key ''instances_prod_r1'' = 120"
    by code_simp
  show ?thesis
    using ttl_policy_resolution [of 7 "''instances_prod_r1''" "Some ''x''" init]
          ttl_policy_resolution [of 7 "''regions''" "Some ''x''" init]
    by (simp add: r CACHE_TTLS_default_300)
qed

text \<open>
  C10 (\<^verbatim>\<open>get\<close> never removes expired entries). \<^verbatim>\<open>get\<close> leaves the whole state as it is;
  on an expired entry it returns \<^verbatim>\<open>None\<close> and the entry stays in \<^verbatim>\<open>_cache\<close>.
  \<^verbatim>\<open>start_background_refresh\<close> and a refresh that fails leave \<^verbatim>\<open>_cache\<close> unchanged too;
  the entry of a key goes away only through \<^verbatim>\<open>set\<close> (called directly or by a refresh that
  succeeds), which replaces it, through \<^verbatim>\<open>invalidate\<close>, or through \<^verbatim>\<open>clear\<close>.
\<close>

theorem get_keeps_expired_entries:
  "snd (cache_get t key s) = s \<and>
   (cache s key = Some entry \<and> is_expired t entry \<longrightarrow>
      fst (cache_get t key s) = None \<and> cache (snd (cache_get t key s)) key = Some entry) \<and>
   cache (start_background_refresh k f s) = cache s \<and>
   cache (snd (refresh_worker t k (Inl e) s)) = cache s \<and>
   cache (snd (refresh_worker t k (Inr v) s)) = cache (cache_set t k v None s) \<and>
   cache (cache_set t key v ttl s) key
     = Some \<lparr>data = v, CacheEntry.timestamp = t,
              ttl_seconds = (case ttl of None \<Rightarrow> get_ttl_for_key key | Some n \<Rightarrow> n)\<rparr> \<and>
   cache (invalidate key s) key = None \<and>
   cache (clear s) key = None"
  by (auto simp: cache_get_def cache_set_def start_background_refresh_def refresh_worker_def
        invalidate_def clear_def Let_def split: option.splits)

theorem get_keeps_expired_entries_witness:
  "cache (cache_set 0 ''k'' (Some (1::nat)) (Some 2) init) ''k''
     = Some \<lparr>data = Some 1, CacheEntry.timestamp = 0, ttl_seconds = 2\<rparr> \<and>
   is_expired 3000000 \<lparr>data = Some (1::nat), CacheEntry.timestamp = 0, ttl_seconds = 2\<rparr> \<and>
   fst (cache_get 3000000 ''k'' (cache_set 0 ''k'' (Some (1::nat)) (Some 2) init)) = None \<and>
   cache (snd (cache_get 3000000 ''k'' (cache_set 0 ''k'' (Some (1::nat)) (Some 2) init))) ''k''
     = Some \<lparr>data = Some 1, CacheEntry.timestamp = 0, ttl_seconds = 2\<rparr>"
  using get_keeps_expired_entries [of 3000000 "''k''"
          "cache_set 0 ''k'' (Some (1::nat)) (Some 2) init"
          "\<lparr>data = Some 1, CacheEntry.timestamp = 0, ttl_seconds = 2\<rparr>"]
  by (simp add: cache_set_def is_expired_def timedelta_seconds_def)


section \<open>Properties of the worker\<close>

lemma poll_body_sends:
  "poll_body cfg env cmd inst attempt start_time k st = (step, st') \<Longrightarrow>
   filter is_send (trace st') = filter is_send (trace st)"
  by (auto simp: poll_body_def Let_def call_def sleep_def
           split: prod.splits sum.splits exn.splits if_splits)

lemma poll_body_clock:
  "poll_body cfg env cmd inst attempt start_time k st = (step, st') \<Longrightarrow> clock st \<le> clock st'"
  by (auto simp: poll_body_def Let_def call_def sleep_def
           split: prod.splits sum.splits exn.splits if_splits)

lemma poll_body_return:
  "poll_body cfg env cmd inst attempt start_time k st = (Stop (PollReturn r), st') \<Longrightarrow>
   instance_id r = InstanceId inst \<and> execution_time r = clock st' - start_time \<and>
   (status r = ''SUCCESS'' \<or> status r = ''FAILED'' \<and> \<not> attempt < BATCH_COMMAND_RETRY cfg)"
  by (auto simp: poll_body_def Let_def call_def sleep_def
           split: prod.splits sum.splits exn.splits if_splits)

lemma poll_body_not_end:
  "poll_body cfg env cmd inst attempt start_time k st \<noteq> (Stop PollEnd, st')"
  by (auto simp: poll_body_def Let_def call_def sleep_def
           split: prod.splits sum.splits exn.splits if_splits)


lemma poll_body_raise:
  "poll_body cfg env cmd inst attempt start_time k st = (Stop (PollRaise e), st') \<Longrightarrow>
   \<exists>cls msg. e = Exception cls msg"
  by (auto simp: poll_body_def Let_def call_def sleep_def
           split: prod.splits sum.splits exn.splits if_splits)

lemma poll_loop_rule:
  assumes "poll_loop cfg env cmd inst attempt start_time max_wait waited k st = (out, st')"
    and "I st"
    and "\<And>k s step s'. I s \<Longrightarrow> poll_body cfg env cmd inst attempt start_time k s = (step, s') \<Longrightarrow> I s'"
  shows "I st' \<and>
         (out = PollEnd \<or> (\<exists>k s. I s \<and> poll_body cfg env cmd inst attempt start_time k s = (Stop out, st')))"
  using assms
proof (induction cfg env cmd inst attempt start_time max_wait waited k st rule: poll_loop.induct)
  case (1 cfg env cmd inst attempt start_time max_wait waited k st)
  note step = "1.prems"(3)
  show ?case
  proof (cases "waited < max_wait \<and> k < max_attempts")
    case False
    with "1.prems" show ?thesis by (simp add: poll_loop.simps)
  next
    case True
    obtain stp st1 where b: "poll_body cfg env cmd inst attempt start_time (k + 1) st = (stp, st1)"
      by (cases "poll_body cfg env cmd inst attempt start_time (k + 1) st")
    have i1: "I st1" using "1.prems"(2) b by (rule step)
    show ?thesis
    proof (cases stp)
      case (Stop x)
      with "1.prems" True b have "st' = st1" "x = out" by (simp_all add: poll_loop.simps)
      with b Stop i1 "1.prems"(2) show ?thesis by blast
    next
      case (Again d)
      with "1.prems" True b
      have "poll_loop cfg env cmd inst attempt start_time max_wait (waited + d) (k + 1) st1 = (out, st')"
        by (simp add: poll_loop.simps)
      from "1.IH" [OF True b [symmetric] Again this i1 step]
      show ?thesis .
    qed
  qed
qed

lemma poll_loop_facts:
  assumes "poll_loop cfg env cmd inst attempt start_time max_wait waited k st = (out, st')"
  shows "filter is_send (trace st') = filter is_send (trace st)"
    and "clock st \<le> clock st'"
    and "out = PollReturn r \<Longrightarrow>
           instance_id r = InstanceId inst \<and> execution_time r = clock st' - start_time \<and>
           (status r = ''SUCCESS'' \<or> status r = ''FAILED'' \<and> \<not> attempt < BATCH_COMMAND_RETRY cfg)"
    and "out = PollRaise e \<Longrightarrow> \<exists>cls msg. e = Exception cls msg"
proof -
  let ?I = "\<lambda>s. filter is_send (trace s) = filter is_send (trace st) \<and> clock st \<le> clock s"
  have "?I st' \<and>
         (out = PollEnd \<or> (\<exists>k s. ?I s \<and> poll_body cfg env cmd inst attempt start_time k s = (Stop out, st')))"
  proof (rule poll_loop_rule [OF assms, where I = ?I])
    show "?I st" by simp
  next
    fix k s step s'
    assume "?I s" and "poll_body cfg env cmd inst attempt start_time k s = (step, s')"
    then show "?I s'"
      using poll_body_sends [of cfg env cmd inst attempt start_time k s step s']
            poll_body_clock [of cfg env cmd inst attempt start_time k s step s']
      by simp
  qed
  then have main: "?I st'" "out = PollEnd \<or> (\<exists>k s. poll_body cfg env cmd inst attempt start_time k s = (Stop out, st'))"
    by blast+
  from main(1) show "filter is_send (trace st') = filter is_send (trace st)" and "clock st \<le> clock st'"
    by simp_all
  from main(2) show "out = PollReturn r \<Longrightarrow>
           instance_id r = InstanceId inst \<and> execution_time r = clock st' - start_time \<and>
           (status r = ''SUCCESS'' \<or> status r = ''FAILED'' \<and> \<not> attempt < BATCH_COMMAND_RETRY cfg)"
    by (auto dest: poll_body_return)
  from main(2) show "out = PollRaise e \<Longrightarrow> \<exists>cls msg. e = Exception cls msg"
    by (auto dest: poll_body_raise)
qed

lemma retry_delay_0: "retry_delay cfg 0 = 0"
  by (simp add: retry_delay_def)

lemma attempt_body_facts:
  assumes "attempt_body cfg env cmd timeout_seconds inst attempt st = (x, st')"
  shows "filter is_send (trace st') = filter is_send (trace st) @ [SendCommand attempt]"
    and "clock st + 1000 * int (retry_delay cfg attempt) \<le> clock st'"
    and "x = Continue \<Longrightarrow> attempt < BATCH_COMMAND_RETRY cfg"
    and "x = Return r \<Longrightarrow>
           instance_id r = InstanceId inst \<and> execution_time r = clock st' - clock st \<and>
           (status r = ''SUCCESS'' \<or>
            (status r = ''FAILED'' \<or> status r = ''TIMEOUT'') \<and> \<not> attempt < BATCH_COMMAND_RETRY cfg)"
proof -
  define st1 where "st1 = (if attempt > 0 then sleep (retry_delay cfg attempt) st else st)"
  obtain latency response where sc: "send_command env attempt = (latency, response)"
    by (cases "send_command env attempt")
  define st2 where "st2 = call (SendCommand attempt) latency st1"
  have t2: "filter is_send (trace st2) = filter is_send (trace st) @ [SendCommand attempt]"
    by (simp add: st2_def st1_def call_def sleep_def)
  have c2: "clock st + 1000 * int (retry_delay cfg attempt) \<le> clock st2"
    by (cases "attempt > 0") (simp_all add: st2_def st1_def call_def sleep_def retry_delay_0)
  have all: "filter is_send (trace st') = filter is_send (trace st) @ [SendCommand attempt] \<and>
     clock st + 1000 * int (retry_delay cfg attempt) \<le> clock st' \<and>
     (x = Continue \<longrightarrow> attempt < BATCH_COMMAND_RETRY cfg) \<and>
     (x = Return r \<longrightarrow>
           instance_id r = InstanceId inst \<and> execution_time r = clock st' - clock st \<and>
           (status r = ''SUCCESS'' \<or>
            (status r = ''FAILED'' \<or> status r = ''TIMEOUT'') \<and> \<not> attempt < BATCH_COMMAND_RETRY cfg))"
  proof (cases response)
    case (Inl e)
    with assms sc t2 c2 show ?thesis
      by (cases e)
         (auto simp: attempt_body_def Let_def st1_def st2_def failed_result_def split: if_splits)
  next
    case (Inr command_id)
    obtain out st3 where pl:
      "poll_loop cfg env cmd inst attempt (clock st) (timeout_seconds + 30) 0 0 st2 = (out, st3)"
      by (cases "poll_loop cfg env cmd inst attempt (clock st) (timeout_seconds + 30) 0 0 st2")
    note f = poll_loop_facts [OF pl]
    have st': "st' = st3"
      using assms sc Inr pl
      by (auto simp: attempt_body_def Let_def st1_def [symmetric] st2_def [symmetric]
               split: poll_outcome.splits exn.splits if_splits)
    show ?thesis
    proof (cases out)
      case (PollReturn r')
      with assms sc Inr pl have "x = Return r'"
        by (simp add: attempt_body_def Let_def st1_def [symmetric] st2_def [symmetric])
      with f(1,2) f(3) [OF PollReturn] t2 c2 st' show ?thesis by auto
    next
      case (PollRaise e)
      with assms sc Inr pl f(1,2) t2 c2 st' show ?thesis
        by (cases e)
           (auto simp: attempt_body_def Let_def st1_def [symmetric] st2_def [symmetric]
                       failed_result_def split: if_splits)
    next
      case PollEnd
      with assms sc Inr pl f(1,2) t2 c2 st' show ?thesis
        by (auto simp: attempt_body_def Let_def st1_def [symmetric] st2_def [symmetric]
                       failed_result_def split: if_splits)
    qed
  qed
  from all show "filter is_send (trace st') = filter is_send (trace st) @ [SendCommand attempt]"
    and "clock st + 1000 * int (retry_delay cfg attempt) \<le> clock st'"
    and "x = Continue \<Longrightarrow> attempt < BATCH_COMMAND_RETRY cfg"
    and "x = Return r \<Longrightarrow>
           instance_id r = InstanceId inst \<and> execution_time r = clock st' - clock st \<and>
           (status r = ''SUCCESS'' \<or>
            (status r = ''FAILED'' \<or> status r = ''TIMEOUT'') \<and> \<not> attempt < BATCH_COMMAND_RETRY cfg)"
    by simp_all
qed

lemma attempt_loop_facts:
  assumes "attempt_loop cfg env cmd timeout_seconds inst a st = (res, st')"
    and "a \<le> BATCH_COMMAND_RETRY cfg"
    and "attempt_entry cfg env cmd timeout_seconds inst a = Some st"
  shows "\<exists>r n st_n. res = Some r \<and> a \<le> n \<and> n \<le> BATCH_COMMAND_RETRY cfg \<and>
           filter is_send (trace st') = filter is_send (trace st) @ map SendCommand [a..<Suc n] \<and>
           instance_id r = InstanceId inst \<and>
           (status r = ''SUCCESS'' \<or>
            (status r = ''FAILED'' \<or> status r = ''TIMEOUT'') \<and> n = BATCH_COMMAND_RETRY cfg) \<and>
           attempt_entry cfg env cmd timeout_seconds inst n = Some st_n \<and>
           execution_time r = clock st' - clock st_n \<and>
           clock st + 1000 * int (\<Sum>i = a..<n. retry_delay cfg i) \<le> clock st_n \<and>
           clock st_n + 1000 * int (retry_delay cfg n) \<le> clock st'"
  using assms
proof (induction cfg env cmd timeout_seconds inst a st rule: attempt_loop.induct)
  case (1 cfg env cmd timeout_seconds inst a st)
  from "1.prems"(2) have lt: "a < BATCH_COMMAND_RETRY cfg + 1" by simp
  obtain x st1 where b: "attempt_body cfg env cmd timeout_seconds inst a st = (x, st1)"
    by (cases "attempt_body cfg env cmd timeout_seconds inst a st")
  note f = attempt_body_facts [OF b]
  show ?case
  proof (cases x)
    case (Return r)
    with "1.prems"(1) lt b have r: "res = Some r" "st' = st1"
      by (simp_all add: attempt_loop.simps)
    from f(4) [OF Return] f(1,2) r "1.prems"(2,3)
    have "res = Some r \<and> a \<le> a \<and> a \<le> BATCH_COMMAND_RETRY cfg \<and>
           filter is_send (trace st') = filter is_send (trace st) @ map SendCommand [a..<Suc a] \<and>
           instance_id r = InstanceId inst \<and>
           (status r = ''SUCCESS'' \<or>
            (status r = ''FAILED'' \<or> status r = ''TIMEOUT'') \<and> a = BATCH_COMMAND_RETRY cfg) \<and>
           attempt_entry cfg env cmd timeout_seconds inst a = Some st \<and>
           execution_time r = clock st' - clock st \<and>
           clock st + 1000 * int (\<Sum>i = a..<a. retry_delay cfg i) \<le> clock st \<and>
           clock st + 1000 * int (retry_delay cfg a) \<le> clock st'"
      by auto
    then show ?thesis by blast
  next
    case Continue
    from f(3) [OF Continue] have a: "Suc a \<le> BATCH_COMMAND_RETRY cfg" by simp
    from "1.prems"(1) lt b Continue
    have l: "attempt_loop cfg env cmd timeout_seconds inst (Suc a) st1 = (res, st')"
      by (simp add: attempt_loop.simps)
    have e: "attempt_entry cfg env cmd timeout_seconds inst (Suc a) = Some st1"
      using "1.prems"(3) b Continue by simp
    from "1.IH" [OF lt b [symmetric] Continue l a e]
    obtain r n st_n where h: "res = Some r" "Suc a \<le> n" "n \<le> BATCH_COMMAND_RETRY cfg"
      "filter is_send (trace st') = filter is_send (trace st1) @ map SendCommand [Suc a..<Suc n]"
      "instance_id r = InstanceId inst"
      "status r = ''SUCCESS'' \<or>
            (status r = ''FAILED'' \<or> status r = ''TIMEOUT'') \<and> n = BATCH_COMMAND_RETRY cfg"
      "attempt_entry cfg env cmd timeout_seconds inst n = Some st_n"
      "execution_time r = clock st' - clock st_n"
      "clock st1 + 1000 * int (\<Sum>i = Suc a..<n. retry_delay cfg i) \<le> clock st_n"
      "clock st_n + 1000 * int (retry_delay cfg n) \<le> clock st'"
      by blast
    from h(2) have u: "[a..<Suc n] = a # [Suc a..<Suc n]"
      by (simp add: upt_conv_Cons)
    from h(2) have sm: "(\<Sum>i = a..<n. retry_delay cfg i) = retry_delay cfg a + (\<Sum>i = Suc a..<n. retry_delay cfg i)"
      by (simp add: sum.atLeast_Suc_lessThan)
    have "a \<le> n" using h(2) by simp
    moreover have "filter is_send (trace st') = filter is_send (trace st) @ map SendCommand [a..<Suc n]"
      using h(4) f(1) u by simp
    moreover have "clock st + 1000 * int (\<Sum>i = a..<n. retry_delay cfg i) \<le> clock st_n"
      using h(9) f(2) sm by simp
    ultimately show ?thesis using h by blast
  qed
qed
lemma poll_body_answer:
  assumes "poll_body cfg env cmd inst a start_time k st = (step, st')"
  shows "case snd (get_command_invocation env a k) of
           Inr result \<Rightarrow>
             (if terminal_status (Status result) then
                (if Status result = ''Success'' then (\<exists>r. step = Stop (PollReturn r) \<and> status r = ''SUCCESS'')
                 else if a < BATCH_COMMAND_RETRY cfg then (\<exists>e. step = Stop (PollRaise e))
                 else (\<exists>r. step = Stop (PollReturn r) \<and> status r = ''FAILED''))
              else step = Again 3)
         | Inl (ClientError code msg) \<Rightarrow> step = Again 2
         | Inl (Exception cls msg) \<Rightarrow> (\<exists>e. step = Stop (PollRaise e))"
  using assms
  by (auto simp: poll_body_def Let_def split: prod.splits sum.splits exn.splits if_splits)

lemma poll_loop_verdict:
  assumes "poll_loop cfg env cmd inst a start_time max_wait waited k st = (out, st')"
  shows "case poll_verdict env a max_wait waited k of
           Succeeds \<Rightarrow> (\<exists>r. out = PollReturn r \<and> status r = ''SUCCESS'')
         | Fails \<Rightarrow> (if a < BATCH_COMMAND_RETRY cfg then (\<exists>e. out = PollRaise e)
                       else (\<exists>r. out = PollReturn r \<and> status r = ''FAILED''))
         | Aborts \<Rightarrow> (\<exists>e. out = PollRaise e)
         | TimesOut \<Rightarrow> out = PollEnd
         | SubmitError \<Rightarrow> False"
  using assms
proof (induction cfg env cmd inst a start_time max_wait waited k st rule: poll_loop.induct)
  case (1 cfg env cmd inst a start_time max_wait waited k st)
  show ?case
  proof (cases "waited < max_wait \<and> k < max_attempts")
    case False
    then have "poll_loop cfg env cmd inst a start_time max_wait waited k st = (PollEnd, st)"
      by (subst poll_loop.simps) auto
    moreover from False have "poll_verdict env a max_wait waited k = TimesOut"
      by (subst poll_verdict.simps) auto
    ultimately show ?thesis using "1.prems" by simp
  next
    case True
    obtain step st1 where b: "poll_body cfg env cmd inst a start_time (k + 1) st = (step, st1)"
      by (cases "poll_body cfg env cmd inst a start_time (k + 1) st")
    note ans = poll_body_answer [OF b]
    have pv: "poll_verdict env a max_wait waited k =
        (case snd (get_command_invocation env a (k + 1)) of
           Inr result \<Rightarrow>
             (if terminal_status (Status result) then
                (if Status result = ''Success'' then Succeeds else Fails)
              else poll_verdict env a max_wait (waited + 3) (k + 1))
         | Inl (ClientError code msg) \<Rightarrow> poll_verdict env a max_wait (waited + 2) (k + 1)
         | Inl (Exception cls msg) \<Rightarrow> Aborts)"
      using True by (subst poll_verdict.simps) simp
    show ?thesis
    proof (cases step)
      case (Stop x)
      with "1.prems" True b have o: "out = x" by (subst (asm) poll_loop.simps) simp
      from ans Stop o show ?thesis
        unfolding pv
        by (auto split: sum.splits exn.splits if_splits)
    next
      case (Again d)
      with "1.prems" True b
      have l: "poll_loop cfg env cmd inst a start_time max_wait (waited + d) (k + 1) st1 = (out, st')"
        by (subst (asm) poll_loop.simps) simp
      note IH = "1.IH" [OF True b [symmetric] Again l]
      from ans Again IH show ?thesis
        unfolding pv
        by (auto split: sum.splits exn.splits if_splits)
    qed
  qed
qed

lemma attempt_body_verdict:
  assumes "attempt_body cfg env cmd timeout_seconds inst a st = (x, st')"
  shows "if attempt_verdict env timeout_seconds a = Succeeds
         then (\<exists>r. x = Return r \<and> status r = ''SUCCESS'')
         else if a < BATCH_COMMAND_RETRY cfg then x = Continue
         else (\<exists>r. x = Return r \<and> status r = final_status (attempt_verdict env timeout_seconds a))"
proof -
  define st1 where "st1 = (if a > 0 then sleep (retry_delay cfg a) st else st)"
  obtain latency response where sc: "send_command env a = (latency, response)"
    by (cases "send_command env a")
  define st2 where "st2 = call (SendCommand a) latency st1"
  show ?thesis
  proof (cases response)
    case (Inl e)
    with sc have v: "attempt_verdict env timeout_seconds a = SubmitError"
      by (simp add: attempt_verdict_def)
    from assms sc Inl show ?thesis
      unfolding v
      by (cases e)
         (auto simp: attempt_body_def Let_def failed_result_def final_status_def split: if_splits)
  next
    case (Inr command_id)
    with sc have v: "attempt_verdict env timeout_seconds a
                       = poll_verdict env a (timeout_seconds + 30) 0 0"
      by (simp add: attempt_verdict_def)
    obtain out st3 where pl:
      "poll_loop cfg env cmd inst a (clock st) (timeout_seconds + 30) 0 0 st2 = (out, st3)"
      by (cases "poll_loop cfg env cmd inst a (clock st) (timeout_seconds + 30) 0 0 st2")
    note pv = poll_loop_verdict [OF pl]
    have x: "x = (case out of
                    PollReturn r \<Rightarrow> Return r
                  | PollEnd \<Rightarrow>
                      (if a < BATCH_COMMAND_RETRY cfg then Continue
                       else Return (failed_result cmd inst ''TIMEOUT''
                              (''Command timed out after '' @ str_int (timeout_seconds + 30) @ '' seconds'')
                              (clock st3 - clock st) (clock st3)))
                  | PollRaise e \<Rightarrow>
                      (if a < BATCH_COMMAND_RETRY cfg then Continue
                       else Return (failed_result cmd inst ''FAILED'' (str_exn e)
                              (clock st3 - clock st) (clock st3))))"
      using assms sc Inr pl
      by (auto simp: attempt_body_def Let_def st1_def [symmetric] st2_def [symmetric]
               split: poll_outcome.splits exn.splits if_splits)
    show ?thesis
    proof (cases "poll_verdict env a (timeout_seconds + 30) 0 0")
      case Succeeds
      with pv x show ?thesis unfolding v by auto
    next
      case Fails
      with pv x show ?thesis unfolding v
        by (auto simp: failed_result_def final_status_def split: if_splits)
    next
      case Aborts
      with pv x show ?thesis unfolding v
        by (auto simp: failed_result_def final_status_def split: if_splits)
    next
      case TimesOut
      with pv x show ?thesis unfolding v
        by (auto simp: failed_result_def final_status_def split: if_splits)
    next
      case SubmitError
      with pv show ?thesis by simp
    qed
  qed
qed

lemma attempt_loop_all_fail:
  assumes "a \<le> BATCH_COMMAND_RETRY cfg"
    and "\<forall>i. a \<le> i \<and> i \<le> BATCH_COMMAND_RETRY cfg \<longrightarrow> attempt_verdict env timeout_seconds i \<noteq> Succeeds"
  shows "\<exists>r st'. attempt_loop cfg env cmd timeout_seconds inst a st = (Some r, st') \<and>
           filter is_send (trace st') = filter is_send (trace st) @ map SendCommand [a..<BATCH_COMMAND_RETRY cfg + 1] \<and>
           status r = final_status (attempt_verdict env timeout_seconds (BATCH_COMMAND_RETRY cfg))"
  using assms
proof (induction cfg env cmd timeout_seconds inst a st rule: attempt_loop.induct)
  case (1 cfg env cmd timeout_seconds inst a st)
  from "1.prems"(1) have lt: "a < BATCH_COMMAND_RETRY cfg + 1" by simp
  obtain x st1 where b: "attempt_body cfg env cmd timeout_seconds inst a st = (x, st1)"
    by (cases "attempt_body cfg env cmd timeout_seconds inst a st")
  note f = attempt_body_facts [OF b]
  from "1.prems" have nv: "attempt_verdict env timeout_seconds a \<noteq> Succeeds" by simp
  note bv = attempt_body_verdict [OF b]
  show ?case
  proof (cases "a < BATCH_COMMAND_RETRY cfg")
    case True
    with bv nv have c: "x = Continue" by simp
    from True have a': "Suc a \<le> BATCH_COMMAND_RETRY cfg" by simp
    from "1.prems"(2) have all': "\<forall>i. Suc a \<le> i \<and> i \<le> BATCH_COMMAND_RETRY cfg \<longrightarrow>
        attempt_verdict env timeout_seconds i \<noteq> Succeeds" by simp
    from "1.IH" [OF lt b [symmetric] c a' all'] obtain r st' where
      h: "attempt_loop cfg env cmd timeout_seconds inst (Suc a) st1 = (Some r, st')"
         "filter is_send (trace st') = filter is_send (trace st1) @ map SendCommand [Suc a..<BATCH_COMMAND_RETRY cfg + 1]"
         "status r = final_status (attempt_verdict env timeout_seconds (BATCH_COMMAND_RETRY cfg))"
      by blast
    have l: "attempt_loop cfg env cmd timeout_seconds inst a st = (Some r, st')"
      using lt b c h(1) by (subst attempt_loop.simps) simp
    from lt have u: "[a..<BATCH_COMMAND_RETRY cfg + 1] = a # [Suc a..<BATCH_COMMAND_RETRY cfg + 1]"
      by (simp add: upt_conv_Cons)
    have "filter is_send (trace st') = filter is_send (trace st) @ map SendCommand [a..<BATCH_COMMAND_RETRY cfg + 1]"
      using h(2) f(1) u by simp
    with l h(3) show ?thesis by blast
  next
    case False
    with "1.prems"(1) have eq: "a = BATCH_COMMAND_RETRY cfg" by simp
    from bv nv False obtain r where r: "x = Return r"
      "status r = final_status (attempt_verdict env timeout_seconds a)" by auto
    have l: "attempt_loop cfg env cmd timeout_seconds inst a st = (Some r, st1)"
      using lt b r(1) by (subst attempt_loop.simps) simp
    have "[a..<BATCH_COMMAND_RETRY cfg + 1] = [a]" using eq by simp
    with f(1) have "filter is_send (trace st1) = filter is_send (trace st) @ map SendCommand [a..<BATCH_COMMAND_RETRY cfg + 1]"
      by simp
    with l r(2) eq show ?thesis by blast
  qed
qed

lemma attempt_loop_first_success:
  assumes "a \<le> n" and "n \<le> BATCH_COMMAND_RETRY cfg"
    and "attempt_verdict env timeout_seconds n = Succeeds"
    and "\<forall>i. a \<le> i \<and> i < n \<longrightarrow> attempt_verdict env timeout_seconds i \<noteq> Succeeds"
  shows "\<exists>r st'. attempt_loop cfg env cmd timeout_seconds inst a st = (Some r, st') \<and>
           filter is_send (trace st') = filter is_send (trace st) @ map SendCommand [a..<Suc n] \<and>
           status r = ''SUCCESS''"
  using assms
proof (induction cfg env cmd timeout_seconds inst a st rule: attempt_loop.induct)
  case (1 cfg env cmd timeout_seconds inst a st)
  from "1.prems"(1,2) have lt: "a < BATCH_COMMAND_RETRY cfg + 1" by simp
  obtain x st1 where b: "attempt_body cfg env cmd timeout_seconds inst a st = (x, st1)"
    by (cases "attempt_body cfg env cmd timeout_seconds inst a st")
  note f = attempt_body_facts [OF b]
  note bv = attempt_body_verdict [OF b]
  show ?case
  proof (cases "a = n")
    case True
    with bv "1.prems"(3) obtain r where r: "x = Return r" "status r = ''SUCCESS''" by auto
    have l: "attempt_loop cfg env cmd timeout_seconds inst a st = (Some r, st1)"
      using lt b r(1) by (subst attempt_loop.simps) simp
    from True f(1) have "filter is_send (trace st1) = filter is_send (trace st) @ map SendCommand [a..<Suc n]"
      by simp
    with l r(2) show ?thesis by blast
  next
    case False
    with "1.prems"(1) have an: "a < n" by simp
    with "1.prems"(4) have nv: "attempt_verdict env timeout_seconds a \<noteq> Succeeds" by simp
    from an "1.prems"(2) have "a < BATCH_COMMAND_RETRY cfg" by simp
    with bv nv have c: "x = Continue" by simp
    from an have a': "Suc a \<le> n" by simp
    from "1.prems"(4) have all': "\<forall>i. Suc a \<le> i \<and> i < n \<longrightarrow>
        attempt_verdict env timeout_seconds i \<noteq> Succeeds" by simp
    from "1.IH" [OF lt b [symmetric] c a' "1.prems"(2,3) all'] obtain r st' where
      h: "attempt_loop cfg env cmd timeout_seconds inst (Suc a) st1 = (Some r, st')"
         "filter is_send (trace st') = filter is_send (trace st1) @ map SendCommand [Suc a..<Suc n]"
         "status r = ''SUCCESS''"
      by blast
    have l: "attempt_loop cfg env cmd timeout_seconds inst a st = (Some r, st')"
      using lt b c h(1) by (subst attempt_loop.simps) simp
    from an have u: "[a..<Suc n] = a # [Suc a..<Suc n]"
      by (simp add: upt_conv_Cons)
    have "filter is_send (trace st') = filter is_send (trace st) @ map SendCommand [a..<Suc n]"
      using h(2) f(1) u by simp
    with l h(3) show ?thesis by blast
  qed
qed

lemma attempts_bounded:
  assumes "execute_on_instance cfg env cmd timeout_seconds inst = Inr (res, st')"
  shows "\<exists>r n. res = Some r \<and> n \<le> BATCH_COMMAND_RETRY cfg \<and>
           filter is_send (trace st') = map SendCommand [0..<Suc n] \<and>
           (status r \<noteq> ''SUCCESS'' \<longrightarrow>
              n = BATCH_COMMAND_RETRY cfg \<and> (status r = ''FAILED'' \<or> status r = ''TIMEOUT''))"
proof -
  from assms have l: "attempt_loop cfg env cmd timeout_seconds inst 0 \<lparr>clock = t0 env, trace = []\<rparr> = (res, st')"
    by (auto simp: execute_on_instance_def split: option.splits)
  from attempt_loop_facts [OF l] show ?thesis
    by auto
qed

lemma final_status_cases: "final_status v = ''FAILED'' \<or> final_status v = ''TIMEOUT''"
  by (simp add: final_status_def)

lemma verdict_never_terminal:
  assumes "\<forall>k. \<exists>l r. get_command_invocation env a k = (l, Inr r) \<and> \<not> terminal_status (Status r)"
  shows "poll_verdict env a max_wait waited k = TimesOut"
proof (induction "max_attempts - k" arbitrary: waited k)
  case 0
  then show ?case by (subst poll_verdict.simps) auto
next
  case (Suc m)
  show ?case
  proof (cases "waited < max_wait \<and> k < max_attempts")
    case False
    then show ?thesis by (subst poll_verdict.simps) auto
  next
    case True
    from assms obtain l r where g: "get_command_invocation env a (k + 1) = (l, Inr r)"
      "\<not> terminal_status (Status r)" by blast
    from Suc(2) have "m = max_attempts - (k + 1)" by simp
    from Suc(1) [OF this]
    have "poll_verdict env a max_wait (waited + 3) (k + 1) = TimesOut" .
    with True g show ?thesis by (subst poll_verdict.simps) simp
  qed
qed

text \<open>
  C2 (retry ceiling). Let the worker be able to create its client. If the answers of the
  command runner make every attempt \<open>0, ..., max_retries\<close> end in failure, timeout or
  submit error (no verdict is \<open>Succeeds\<close>), then \<^verbatim>\<open>execute_on_instance\<close> returns a
  result after the \<^verbatim>\<open>send_command\<close> calls of exactly the attempts \<open>0, ..., max_retries\<close>,
  that is after \<open>max_retries\<close> retries, and the result is that of the last attempt:
  TIMEOUT if it timed out, FAILED otherwise. If attempt \<open>n \<le> max_retries\<close> is the first to
  succeed, the result is SUCCESS after the attempts \<open>0, ..., n\<close>. In every case the
  attempts made are \<open>0, ..., k\<close> for some \<open>k \<le> max_retries\<close>, never more. The configured
  \<open>max_retries\<close> is 3.
\<close>

theorem retry_ceiling:
  "(client env = None \<and>
    (\<forall>a. a \<le> BATCH_COMMAND_RETRY cfg \<longrightarrow> attempt_verdict env timeout_seconds a \<noteq> Succeeds) \<longrightarrow>
      (\<exists>r st'. execute_on_instance cfg env cmd timeout_seconds inst = Inr (Some r, st') \<and>
         filter is_send (trace st') = map SendCommand [0..<BATCH_COMMAND_RETRY cfg + 1] \<and>
         status r = final_status (attempt_verdict env timeout_seconds (BATCH_COMMAND_RETRY cfg)) \<and>
         (status r = ''FAILED'' \<or> status r = ''TIMEOUT''))) \<and>
   (client env = None \<and> n \<le> BATCH_COMMAND_RETRY cfg \<and>
    attempt_verdict env timeout_seconds n = Succeeds \<and>
    (\<forall>a. a < n \<longrightarrow> attempt_verdict env timeout_seconds a \<noteq> Succeeds) \<longrightarrow>
      (\<exists>r st'. execute_on_instance cfg env cmd timeout_seconds inst = Inr (Some r, st') \<and>
         filter is_send (trace st') = map SendCommand [0..<Suc n] \<and>
         status r = ''SUCCESS'')) \<and>
   (execute_on_instance cfg env cmd timeout_seconds inst = Inr (res, st) \<longrightarrow>
      (\<exists>r k. res = Some r \<and> k \<le> BATCH_COMMAND_RETRY cfg \<and>
         filter is_send (trace st) = map SendCommand [0..<Suc k] \<and>
         (status r \<noteq> ''SUCCESS'' \<longrightarrow>
            k = BATCH_COMMAND_RETRY cfg \<and> (status r = ''FAILED'' \<or> status r = ''TIMEOUT'')))) \<and>
   BATCH_COMMAND_RETRY config = 3"
proof (intro conjI impI)
  assume h: "client env = None \<and>
    (\<forall>a. a \<le> BATCH_COMMAND_RETRY cfg \<longrightarrow> attempt_verdict env timeout_seconds a \<noteq> Succeeds)"
  then have all: "\<forall>i. 0 \<le> i \<and> i \<le> BATCH_COMMAND_RETRY cfg \<longrightarrow>
      attempt_verdict env timeout_seconds i \<noteq> Succeeds" by simp
  from attempt_loop_all_fail [OF _ all, where cmd = cmd and inst = inst
      and st = "\<lparr>clock = t0 env, trace = []\<rparr>"]
  obtain r st' where l:
    "attempt_loop cfg env cmd timeout_seconds inst 0 \<lparr>clock = t0 env, trace = []\<rparr> = (Some r, st')"
    "filter is_send (trace st') = map SendCommand [0..<BATCH_COMMAND_RETRY cfg + 1]"
    "status r = final_status (attempt_verdict env timeout_seconds (BATCH_COMMAND_RETRY cfg))"
    by auto
  from h l(1) have "execute_on_instance cfg env cmd timeout_seconds inst = Inr (Some r, st')"
    by (simp add: execute_on_instance_def)
  moreover from l(3) final_status_cases have "status r = ''FAILED'' \<or> status r = ''TIMEOUT''"
    by simp
  ultimately show "\<exists>r st'. execute_on_instance cfg env cmd timeout_seconds inst = Inr (Some r, st') \<and>
         filter is_send (trace st') = map SendCommand [0..<BATCH_COMMAND_RETRY cfg + 1] \<and>
         status r = final_status (attempt_verdict env timeout_seconds (BATCH_COMMAND_RETRY cfg)) \<and>
         (status r = ''FAILED'' \<or> status r = ''TIMEOUT'')"
    using l(2,3) by blast
next
  assume h: "client env = None \<and> n \<le> BATCH_COMMAND_RETRY cfg \<and>
    attempt_verdict env timeout_seconds n = Succeeds \<and>
    (\<forall>a. a < n \<longrightarrow> attempt_verdict env timeout_seconds a \<noteq> Succeeds)"
  then have n: "n \<le> BATCH_COMMAND_RETRY cfg" and s: "attempt_verdict env timeout_seconds n = Succeeds"
    and all: "\<forall>i. 0 \<le> i \<and> i < n \<longrightarrow> attempt_verdict env timeout_seconds i \<noteq> Succeeds"
    by simp_all
  from attempt_loop_first_success [OF _ n s all, where cmd = cmd and inst = inst
      and st = "\<lparr>clock = t0 env, trace = []\<rparr>"]
  obtain r st' where l:
    "attempt_loop cfg env cmd timeout_seconds inst 0 \<lparr>clock = t0 env, trace = []\<rparr> = (Some r, st')"
    "filter is_send (trace st') = map SendCommand [0..<Suc n]"
    "status r = ''SUCCESS''"
    by auto
  from h l(1) have "execute_on_instance cfg env cmd timeout_seconds inst = Inr (Some r, st')"
    by (simp add: execute_on_instance_def)
  with l(2,3) show "\<exists>r st'. execute_on_instance cfg env cmd timeout_seconds inst = Inr (Some r, st') \<and>
         filter is_send (trace st') = map SendCommand [0..<Suc n] \<and> status r = ''SUCCESS''"
    by blast
next
  assume "execute_on_instance cfg env cmd timeout_seconds inst = Inr (res, st)"
  then show "\<exists>r k. res = Some r \<and> k \<le> BATCH_COMMAND_RETRY cfg \<and>
         filter is_send (trace st) = map SendCommand [0..<Suc k] \<and>
         (status r \<noteq> ''SUCCESS'' \<longrightarrow>
            k = BATCH_COMMAND_RETRY cfg \<and> (status r = ''FAILED'' \<or> status r = ''TIMEOUT''))"
    by (rule attempts_bounded)
next
  show "BATCH_COMMAND_RETRY config = 3" by (simp add: config_def)
qed

lemma verdict_ssm_failing: "attempt_verdict ssm_failing 120 a = Fails"
  by (simp add: attempt_verdict_def ssm_failing_def)
     (subst poll_verdict.simps, simp add: terminal_status_def max_attempts_def)

lemma verdict_ssm_running: "attempt_verdict ssm_running 120 a = TimesOut"
proof -
  have "\<forall>k. \<exists>l r. get_command_invocation ssm_running a k = (l, Inr r) \<and> \<not> terminal_status (Status r)"
    by (simp add: ssm_running_def terminal_status_def)
  from verdict_never_terminal [OF this] show ?thesis
    by (simp add: attempt_verdict_def ssm_running_def)
qed

lemma verdict_ssm_rejecting: "attempt_verdict ssm_rejecting 120 a = SubmitError"
  by (simp add: attempt_verdict_def ssm_rejecting_def)

theorem retry_ceiling_witness:
  "client ssm_failing = None \<and>
   (\<forall>a. attempt_verdict ssm_failing 120 a = Fails) \<and>
   execute_on_instance config ssm_failing ''uptime'' 120 inst0 =
     Inr (Some \<lparr>command = ''uptime'', instance_id = ''i-0a'', instance_name = ''web-1'',
                 status = ''FAILED'', output' = [], error = ''disk full'',
                 execution_time = 30000, timestamp = 60000\<rparr>,
          \<lparr>clock = 60000,
           trace = [SendCommand 0, GetCommandInvocation 0 1, Sleep 10,
                    SendCommand 1, GetCommandInvocation 1 1, Sleep 20,
                    SendCommand 2, GetCommandInvocation 2 1, Sleep 30,
                    SendCommand 3, GetCommandInvocation 3 1]\<rparr>) \<and>
   filter is_send (trace (snd (projr (execute_on_instance config ssm_failing ''uptime'' 120 inst0))))
     = map SendCommand [0..<BATCH_COMMAND_RETRY config + 1] \<and>
   client ssm_running = None \<and>
   (\<forall>a. attempt_verdict ssm_running 120 a = TimesOut) \<and>
   status (the (fst (projr (execute_on_instance config ssm_running ''uptime'' 120 inst0)))) = ''TIMEOUT'' \<and>
   filter is_send (trace (snd (projr (execute_on_instance config ssm_running ''uptime'' 120 inst0))))
     = map SendCommand [0..<BATCH_COMMAND_RETRY config + 1] \<and>
   client ssm_rejecting = None \<and>
   (\<forall>a. attempt_verdict ssm_rejecting 120 a = SubmitError) \<and>
   status (the (fst (projr (execute_on_instance config ssm_rejecting ''uptime'' 120 inst0)))) = ''FAILED'' \<and>
   filter is_send (trace (snd (projr (execute_on_instance config ssm_rejecting ''uptime'' 120 inst0))))
     = map SendCommand [0..<BATCH_COMMAND_RETRY config + 1] \<and>
   client ssm_recovering = None \<and> Suc 0 \<le> BATCH_COMMAND_RETRY config \<and>
   attempt_verdict ssm_recovering 120 0 = Fails \<and>
   attempt_verdict ssm_recovering 120 (Suc 0) = Succeeds \<and>
   status (the (fst (projr (execute_on_instance config ssm_recovering ''uptime'' 120 inst0)))) = ''SUCCESS'' \<and>
   filter is_send (trace (snd (projr (execute_on_instance config ssm_recovering ''uptime'' 120 inst0))))
     = map SendCommand [0..<Suc (Suc 0)]"
proof -
  have cf: "client ssm_failing = None" by (simp add: ssm_failing_def)
  have cr: "client ssm_running = None" by (simp add: ssm_running_def)
  have cj: "client ssm_rejecting = None" by (simp add: ssm_rejecting_def)
  have cv: "client ssm_recovering = None" by (simp add: ssm_recovering_def)
  have vf: "\<forall>a. attempt_verdict ssm_failing 120 a = Fails" by (simp add: verdict_ssm_failing)
  have vr: "\<forall>a. attempt_verdict ssm_running 120 a = TimesOut" by (simp add: verdict_ssm_running)
  have vj: "\<forall>a. attempt_verdict ssm_rejecting 120 a = SubmitError" by (simp add: verdict_ssm_rejecting)
  have v0: "attempt_verdict ssm_recovering 120 0 = Fails" by code_simp
  have v1: "attempt_verdict ssm_recovering 120 (Suc 0) = Succeeds" by code_simp
  have n1: "Suc 0 \<le> BATCH_COMMAND_RETRY config" by (simp add: config_def)
  have e: "execute_on_instance config ssm_failing ''uptime'' 120 inst0 =
     Inr (Some \<lparr>command = ''uptime'', instance_id = ''i-0a'', instance_name = ''web-1'',
                 status = ''FAILED'', output' = [], error = ''disk full'',
                 execution_time = 30000, timestamp = 60000\<rparr>,
          \<lparr>clock = 60000,
           trace = [SendCommand 0, GetCommandInvocation 0 1, Sleep 10,
                    SendCommand 1, GetCommandInvocation 1 1, Sleep 20,
                    SendCommand 2, GetCommandInvocation 2 1, Sleep 30,
                    SendCommand 3, GetCommandInvocation 3 1]\<rparr>)"
    by code_simp
  have af: "\<forall>a. a \<le> BATCH_COMMAND_RETRY config \<longrightarrow> attempt_verdict ssm_failing 120 a \<noteq> Succeeds"
    by (simp add: verdict_ssm_failing)
  have ar: "\<forall>a. a \<le> BATCH_COMMAND_RETRY config \<longrightarrow> attempt_verdict ssm_running 120 a \<noteq> Succeeds"
    by (simp add: verdict_ssm_running)
  have aj: "\<forall>a. a \<le> BATCH_COMMAND_RETRY config \<longrightarrow> attempt_verdict ssm_rejecting 120 a \<noteq> Succeeds"
    by (simp add: verdict_ssm_rejecting)
  have av: "\<forall>a. a < Suc 0 \<longrightarrow> attempt_verdict ssm_recovering 120 a \<noteq> Succeeds"
    using v0 by simp
  from retry_ceiling [where cfg = config and env = ssm_failing and timeout_seconds = 120
      and cmd = "''uptime''" and inst = inst0, THEN conjunct1, THEN mp, OF conjI [OF cf af]]
  obtain r1 s1 where f: "execute_on_instance config ssm_failing ''uptime'' 120 inst0 = Inr (Some r1, s1)"
    "filter is_send (trace s1) = map SendCommand [0..<BATCH_COMMAND_RETRY config + 1]"
    by (elim exE conjE)
  from f have f1: "filter is_send (trace (snd (projr (execute_on_instance config ssm_failing ''uptime'' 120 inst0))))
     = map SendCommand [0..<BATCH_COMMAND_RETRY config + 1]"
    by (simp only: sum.sel snd_conv)
  from retry_ceiling [where cfg = config and env = ssm_running and timeout_seconds = 120
      and cmd = "''uptime''" and inst = inst0, THEN conjunct1, THEN mp, OF conjI [OF cr ar]]
  obtain r2 s2 where r: "execute_on_instance config ssm_running ''uptime'' 120 inst0 = Inr (Some r2, s2)"
    "filter is_send (trace s2) = map SendCommand [0..<BATCH_COMMAND_RETRY config + 1]"
    "status r2 = final_status (attempt_verdict ssm_running 120 (BATCH_COMMAND_RETRY config))"
    by (elim exE conjE)
  from r(3) have "status r2 = ''TIMEOUT''"
    by (simp add: verdict_ssm_running final_status_def)
  with r(1,2) have r1: "status (the (fst (projr (execute_on_instance config ssm_running ''uptime'' 120 inst0)))) = ''TIMEOUT''"
    and r2: "filter is_send (trace (snd (projr (execute_on_instance config ssm_running ''uptime'' 120 inst0))))
     = map SendCommand [0..<BATCH_COMMAND_RETRY config + 1]"
    by (simp_all only: sum.sel snd_conv fst_conv option.sel)
  from retry_ceiling [where cfg = config and env = ssm_rejecting and timeout_seconds = 120
      and cmd = "''uptime''" and inst = inst0, THEN conjunct1, THEN mp, OF conjI [OF cj aj]]
  obtain r3 s3 where j: "execute_on_instance config ssm_rejecting ''uptime'' 120 inst0 = Inr (Some r3, s3)"
    "filter is_send (trace s3) = map SendCommand [0..<BATCH_COMMAND_RETRY config + 1]"
    "status r3 = final_status (attempt_verdict ssm_rejecting 120 (BATCH_COMMAND_RETRY config))"
    by (elim exE conjE)
  from j(3) have "status r3 = ''FAILED''"
    by (simp add: verdict_ssm_rejecting final_status_def)
  with j(1,2) have j1: "status (the (fst (projr (execute_on_instance config ssm_rejecting ''uptime'' 120 inst0)))) = ''FAILED''"
    and j2: "filter is_send (trace (snd (projr (execute_on_instance config ssm_rejecting ''uptime'' 120 inst0))))
     = map SendCommand [0..<BATCH_COMMAND_RETRY config + 1]"
    by (simp_all only: sum.sel snd_conv fst_conv option.sel)
  from retry_ceiling [where cfg = config and env = ssm_recovering and timeout_seconds = 120
      and cmd = "''uptime''" and inst = inst0 and n = "Suc 0", THEN conjunct2, THEN conjunct1, THEN mp,
      OF conjI [OF cv conjI [OF n1 conjI [OF v1 av]]]]
  obtain r4 s4 where v: "execute_on_instance config ssm_recovering ''uptime'' 120 inst0 = Inr (Some r4, s4)"
    "filter is_send (trace s4) = map SendCommand [0..<Suc (Suc 0)]"
    "status r4 = ''SUCCESS''"
    by (elim exE conjE)
  then have v1': "status (the (fst (projr (execute_on_instance config ssm_recovering ''uptime'' 120 inst0)))) = ''SUCCESS''"
    and v2': "filter is_send (trace (snd (projr (execute_on_instance config ssm_recovering ''uptime'' 120 inst0))))
     = map SendCommand [0..<Suc (Suc 0)]"
    by (simp_all only: sum.sel snd_conv fst_conv option.sel)
  from cf vf e f1 cr vr r1 r2 cj vj j1 j2 cv n1 v0 v1 v1' v2' show ?thesis
    by (intro conjI)
qed

text \<open>
  C7 (elapsed time of a failure), as the code has it: \<^verbatim>\<open>start_time\<close> is read anew at the
  top of every attempt. The result reported when every attempt has failed carries the time
  elapsed since the last attempt was entered, which includes the backoff sleep of that
  attempt (at least \<open>retry_delay max_retries\<close> seconds) and excludes the earlier attempts
  and their backoff sleeps (at least the sum of \<open>retry_delay i\<close> for \<open>i < max_retries\<close>).
\<close>

theorem failure_time_is_last_attempt:
  assumes "execute_on_instance cfg env cmd timeout_seconds inst = Inr (Some r, st')"
    and "status r \<noteq> ''SUCCESS''"
  shows "\<exists>st_last. attempt_entry cfg env cmd timeout_seconds inst (BATCH_COMMAND_RETRY cfg) = Some st_last \<and>
           execution_time r = clock st' - clock st_last \<and>
           t0 env + 1000 * int (\<Sum>i = 0..<BATCH_COMMAND_RETRY cfg. retry_delay cfg i) \<le> clock st_last \<and>
           clock st_last + 1000 * int (retry_delay cfg (BATCH_COMMAND_RETRY cfg)) \<le> clock st'"
proof -
  from assms have l: "attempt_loop cfg env cmd timeout_seconds inst 0 \<lparr>clock = t0 env, trace = []\<rparr> = (Some r, st')"
    by (auto simp: execute_on_instance_def split: option.splits)
  from attempt_loop_facts [OF l] assms(2) show ?thesis
    by auto
qed

theorem failure_time_is_last_attempt_witness:
  "execute_on_instance (config\<lparr>BATCH_COMMAND_RETRY := 2\<rparr>) ssm_rejecting ''uptime'' 120 inst0 =
     Inr (Some \<lparr>command = ''uptime'', instance_id = ''i-0a'', instance_name = ''web-1'',
                 status = ''FAILED'', output' = [], error = ''Rate exceeded'',
                 execution_time = 20000, timestamp = 30000\<rparr>,
          \<lparr>clock = 30000,
           trace = [SendCommand 0, Sleep 10, SendCommand 1, Sleep 20, SendCommand 2]\<rparr>) \<and>
   ''FAILED'' \<noteq> ''SUCCESS'' \<and>
   attempt_entry (config\<lparr>BATCH_COMMAND_RETRY := 2\<rparr>) ssm_rejecting ''uptime'' 120 inst0 2
     = Some \<lparr>clock = 10000, trace = [SendCommand 0, Sleep 10, SendCommand 1]\<rparr> \<and>
   (20000::int) = 30000 - 10000"
  (is "?run = Inr (Some ?r0, ?st0) \<and> ?ne \<and> ?entry = Some ?st2 \<and> ?tm")
proof -
  have e: "?run = Inr (Some ?r0, ?st0)"
    by code_simp
  have ne: "?ne" by simp
  have n: "status ?r0 \<noteq> ''SUCCESS''" by simp
  have a: "?entry = Some ?st2" by code_simp
  have mr: "BATCH_COMMAND_RETRY (config\<lparr>BATCH_COMMAND_RETRY := 2\<rparr>) = 2"
    by simp
  from failure_time_is_last_attempt [OF e n] obtain st_last where
    h: "attempt_entry (config\<lparr>BATCH_COMMAND_RETRY := 2\<rparr>) ssm_rejecting ''uptime'' 120 inst0
          (BATCH_COMMAND_RETRY (config\<lparr>BATCH_COMMAND_RETRY := 2\<rparr>)) = Some st_last"
       "execution_time ?r0 = clock ?st0 - clock st_last"
    by (elim exE conjE)
  from h(1) have h1: "?entry = Some st_last"
    by (simp only: mr)
  from h1 a have "st_last = ?st2" by (simp only: option.inject)
  with h(2) have tm: "?tm" by simp
  from e ne a tm show ?thesis by (intro conjI)
qed

text \<open>
  C7 as the specification states it fails: with \<open>max_retries = 2\<close> and every
  \<^verbatim>\<open>send_command\<close> rejected at once, the three attempts take 30 seconds in all (backoff
  10 + 20), and the FAILED result carries 20 seconds.
\<close>

theorem failure_time_total_counterexample:
  "execute_on_instance (config\<lparr>BATCH_COMMAND_RETRY := 2\<rparr>) ssm_rejecting ''uptime'' 120 inst0 =
     Inr (Some \<lparr>command = ''uptime'', instance_id = ''i-0a'', instance_name = ''web-1'',
                 status = ''FAILED'', output' = [], error = ''Rate exceeded'',
                 execution_time = 20000, timestamp = 30000\<rparr>,
          \<lparr>clock = 30000,
           trace = [SendCommand 0, Sleep 10, SendCommand 1, Sleep 20, SendCommand 2]\<rparr>) \<and>
   t0 ssm_rejecting = 0 \<and> (20000::int) \<noteq> 30000 - 0"
  by code_simp

lemma poll_step_client_error:
  assumes "get_command_invocation env attempt (Suc k) = (lat, Inl (ClientError code msg))"
    and "waited < max_wait" and "k < max_attempts"
  shows "poll_loop cfg env cmd inst attempt start_time max_wait waited k st =
         poll_loop cfg env cmd inst attempt start_time max_wait (waited + 2) (Suc k)
           (sleep (if code = ''InvocationDoesNotExist'' then 2 else WAIT_PORT_READY cfg)
              (call (GetCommandInvocation attempt (Suc k)) lat st))"
  using assms
  by (subst poll_loop.simps) (simp add: poll_body_def)

lemma poll_step_exception:
  assumes "get_command_invocation env attempt (Suc k) = (lat, Inl (Exception cls msg))"
    and "waited < max_wait" and "k < max_attempts"
  shows "poll_loop cfg env cmd inst attempt start_time max_wait waited k st =
         (PollRaise (Exception cls msg), call (GetCommandInvocation attempt (Suc k)) lat st)"
  using assms
  by (subst poll_loop.simps) (simp add: poll_body_def)

lemma poll_all_client_errors:
  assumes "\<And>j. \<exists>lat code msg. get_command_invocation env attempt j = (lat, Inl (ClientError code msg))"
  shows "\<exists>st' n. poll_loop cfg env cmd inst attempt start_time max_wait waited k st = (PollEnd, st') \<and>
           length (filter is_poll (trace st')) = length (filter is_poll (trace st)) + n \<and>
           \<not> (waited + 2 * int n < max_wait \<and> k + n < max_attempts) \<and>
           (\<forall>j < n. waited + 2 * int j < max_wait \<and> k + j < max_attempts)"
  using assms
proof (induction cfg env cmd inst attempt start_time max_wait waited k st rule: poll_loop.induct)
  case (1 cfg env cmd inst attempt start_time max_wait waited k st)
  show ?case
  proof (cases "waited < max_wait \<and> k < max_attempts")
    case False
    then have "poll_loop cfg env cmd inst attempt start_time max_wait waited k st = (PollEnd, st)"
      by (subst poll_loop.simps) auto
    with False show ?thesis by (intro exI [of _ st] exI [of _ 0]) simp
  next
    case True
    from "1.prems" obtain lat code msg where
      g: "get_command_invocation env attempt (k + 1) = (lat, Inl (ClientError code msg))"
      by blast
    define st1 where "st1 = sleep (if code = ''InvocationDoesNotExist'' then 2 else WAIT_PORT_READY cfg)
              (call (GetCommandInvocation attempt (k + 1)) lat st)"
    have b: "poll_body cfg env cmd inst attempt start_time (k + 1) st = (Again 2, st1)"
      using g by (simp add: poll_body_def st1_def)
    have p1: "length (filter is_poll (trace st1)) = length (filter is_poll (trace st)) + 1"
      by (simp add: st1_def sleep_def call_def)
    from "1.IH" [OF True b [symmetric] refl "1.prems"]
    obtain st' n where h:
      "poll_loop cfg env cmd inst attempt start_time max_wait (waited + 2) (k + 1) st1 = (PollEnd, st')"
      "length (filter is_poll (trace st')) = length (filter is_poll (trace st1)) + n"
      "\<not> (waited + 2 + 2 * int n < max_wait \<and> k + 1 + n < max_attempts)"
      "\<forall>j < n. waited + 2 + 2 * int j < max_wait \<and> k + 1 + j < max_attempts"
      by blast
    have r: "poll_loop cfg env cmd inst attempt start_time max_wait waited k st = (PollEnd, st')"
      using True b h(1) by (subst poll_loop.simps) simp
    have a: "\<forall>j < Suc n. waited + 2 * int j < max_wait \<and> k + j < max_attempts"
    proof (intro allI impI)
      fix j assume "j < Suc n"
      show "waited + 2 * int j < max_wait \<and> k + j < max_attempts"
      proof (cases j)
        case 0
        with True show ?thesis by simp
      next
        case (Suc j')
        with \<open>j < Suc n\<close> h(4) have "waited + 2 + 2 * int j' < max_wait \<and> k + 1 + j' < max_attempts"
          by simp
        with Suc show ?thesis by simp
      qed
    qed
    from r h(2,3) p1 a show ?thesis
      by (intro exI [of _ st'] exI [of _ "Suc n"]) simp
  qed
qed

text \<open>
  C8 (polling and exceptions), as the code has it: a \<^verbatim>\<open>ClientError\<close> raised by a status
  query, whatever its code, is absorbed: the loop sleeps, adds 2 to \<^verbatim>\<open>waited\<close> and
  queries again; if every query raises a \<^verbatim>\<open>ClientError\<close> the loop runs until one of its
  two ceilings stops it. Any other exception leaves the loop at once.
\<close>

theorem polling_absorbs_client_errors:
  "(get_command_invocation env attempt (Suc k) = (lat, Inl (ClientError code msg)) \<and>
    waited < max_wait \<and> k < max_attempts \<longrightarrow>
      poll_loop cfg env cmd inst attempt start_time max_wait waited k st =
      poll_loop cfg env cmd inst attempt start_time max_wait (waited + 2) (Suc k)
        (sleep (if code = ''InvocationDoesNotExist'' then 2 else WAIT_PORT_READY cfg)
           (call (GetCommandInvocation attempt (Suc k)) lat st))) \<and>
   ((\<forall>j. \<exists>l c m. get_command_invocation env attempt j = (l, Inl (ClientError c m))) \<longrightarrow>
      (\<exists>st' n. poll_loop cfg env cmd inst attempt start_time max_wait waited k st = (PollEnd, st') \<and>
         length (filter is_poll (trace st')) = length (filter is_poll (trace st)) + n \<and>
         \<not> (waited + 2 * int n < max_wait \<and> k + n < max_attempts) \<and>
         (\<forall>j < n. waited + 2 * int j < max_wait \<and> k + j < max_attempts))) \<and>
   (get_command_invocation env attempt (Suc k) = (lat, Inl (Exception cls emsg)) \<and>
    waited < max_wait \<and> k < max_attempts \<longrightarrow>
      poll_loop cfg env cmd inst attempt start_time max_wait waited k st =
      (PollRaise (Exception cls emsg), call (GetCommandInvocation attempt (Suc k)) lat st))"
  using poll_step_client_error [of env attempt k lat code msg waited max_wait cfg cmd inst start_time st]
        poll_step_exception [of env attempt k lat cls emsg waited max_wait cfg cmd inst start_time st]
        poll_all_client_errors [of env attempt cfg cmd inst start_time max_wait waited k st]
  by blast

theorem polling_absorbs_client_errors_witness:
  "get_command_invocation ssm_rejecting 0 (Suc 0) = (0, Inl (ClientError ''InvocationDoesNotExist'' [])) \<and>
   (0::int) < 150 \<and> 0 < max_attempts \<and>
   (\<forall>j. \<exists>l c m. get_command_invocation ssm_rejecting 0 j = (l, Inl (ClientError c m))) \<and>
   poll_loop config ssm_rejecting ''uptime'' inst0 0 0 150 0 0 \<lparr>clock = 0, trace = []\<rparr> =
     poll_loop config ssm_rejecting ''uptime'' inst0 0 0 150 (0 + 2) (Suc 0)
       (sleep 2 (call (GetCommandInvocation 0 (Suc 0)) 0 \<lparr>clock = 0, trace = []\<rparr>)) \<and>
   fst (poll_loop config ssm_rejecting ''uptime'' inst0 0 0 150 0 0 \<lparr>clock = 0, trace = []\<rparr>) = PollEnd \<and>
   get_command_invocation ssm_unreachable 0 (Suc 0)
     = (0, Inl (Exception ''EndpointConnectionError'' ''Could not connect'')) \<and>
   poll_loop config ssm_unreachable ''uptime'' inst0 0 0 150 0 0 \<lparr>clock = 0, trace = []\<rparr> =
     (PollRaise (Exception ''EndpointConnectionError'' ''Could not connect''),
      call (GetCommandInvocation 0 (Suc 0)) 0 \<lparr>clock = 0, trace = []\<rparr>)"
proof -
  have g: "get_command_invocation ssm_rejecting 0 (Suc 0) = (0, Inl (ClientError ''InvocationDoesNotExist'' []))"
    by (simp add: ssm_rejecting_def)
  have a: "\<forall>j. \<exists>l c m. get_command_invocation ssm_rejecting 0 j = (l, Inl (ClientError c m))"
    by (simp add: ssm_rejecting_def)
  have u: "get_command_invocation ssm_unreachable 0 (Suc 0)
              = (0, Inl (Exception ''EndpointConnectionError'' ''Could not connect''))"
    by (simp add: ssm_unreachable_def)
  have m: "0 < max_attempts"
    by (simp add: max_attempts_def)
  have w: "(0::int) < 150" by simp
  note t1 = polling_absorbs_client_errors [of ssm_rejecting 0 0 0 "''InvocationDoesNotExist''" "[]"
      0 150 config "''uptime''" inst0 0 "\<lparr>clock = 0, trace = []\<rparr>"]
  note t2 = polling_absorbs_client_errors [of ssm_unreachable 0 0 0 _ _
      0 150 config "''uptime''" inst0 0 "\<lparr>clock = 0, trace = []\<rparr>"
      "''EndpointConnectionError''" "''Could not connect''"]
  from t1 [THEN conjunct1, THEN mp, OF conjI [OF g conjI [OF w m]]]
  have s1: "poll_loop config ssm_rejecting ''uptime'' inst0 0 0 150 0 0 \<lparr>clock = 0, trace = []\<rparr> =
     poll_loop config ssm_rejecting ''uptime'' inst0 0 0 150 (0 + 2) (Suc 0)
       (sleep 2 (call (GetCommandInvocation 0 (Suc 0)) 0 \<lparr>clock = 0, trace = []\<rparr>))"
    by (simp only: simp_thms if_True)
  from t1 [THEN conjunct2, THEN conjunct1, THEN mp, OF a]
  obtain st' where "poll_loop config ssm_rejecting ''uptime'' inst0 0 0 150 0 0 \<lparr>clock = 0, trace = []\<rparr> = (PollEnd, st')"
    by blast
  then have s2: "fst (poll_loop config ssm_rejecting ''uptime'' inst0 0 0 150 0 0 \<lparr>clock = 0, trace = []\<rparr>) = PollEnd"
    by (simp only: fst_conv)
  from t2 [THEN conjunct2, THEN conjunct2, THEN mp, OF conjI [OF u conjI [OF w m]]]
  have s3: "poll_loop config ssm_unreachable ''uptime'' inst0 0 0 150 0 0 \<lparr>clock = 0, trace = []\<rparr> =
     (PollRaise (Exception ''EndpointConnectionError'' ''Could not connect''),
      call (GetCommandInvocation 0 (Suc 0)) 0 \<lparr>clock = 0, trace = []\<rparr>)" .
  from g w m a s1 s2 u s3 show ?thesis by (intro conjI)
qed

text \<open>
  C8 as the specification states it fails: when the status queries raise an exception
  that is not a \<^verbatim>\<open>ClientError\<close>, each attempt ends after its first query, far from the
  ceilings (150 seconds, 200 queries), and the last attempt reports FAILED.
\<close>

theorem polling_exception_counterexample:
  "execute_on_instance config ssm_unreachable ''uptime'' 120 inst0 =
     Inr (Some \<lparr>command = ''uptime'', instance_id = ''i-0a'', instance_name = ''web-1'',
                 status = ''FAILED'', output' = [], error = ''Could not connect'',
                 execution_time = 30000, timestamp = 60000\<rparr>,
          \<lparr>clock = 60000,
           trace = [SendCommand 0, GetCommandInvocation 0 1, Sleep 10,
                    SendCommand 1, GetCommandInvocation 1 1, Sleep 20,
                    SendCommand 2, GetCommandInvocation 2 1, Sleep 30,
                    SendCommand 3, GetCommandInvocation 3 1]\<rparr>)"
  by code_simp


section \<open>Properties of the batch executor\<close>

lemma as_completed_mset: "mset (as_completed ord xs) = mset xs"
proof (induction ord xs rule: as_completed.induct)
  case (3 c cs x xs)
  let ?ys = "x # xs"
  let ?i = "c mod length ?ys"
  have i: "?i < length ?ys" by simp
  have "mset ?ys = mset (take ?i ?ys @ ?ys ! ?i # drop (Suc ?i) ?ys)"
    using id_take_nth_drop [OF i] by simp
  also have "\<dots> = add_mset (?ys ! ?i) (mset (take ?i ?ys @ drop (Suc ?i) ?ys))"
    by simp
  finally have m: "mset ?ys = add_mset (?ys ! ?i) (mset (take ?i ?ys @ drop (Suc ?i) ?ys))" .
  from "3.IH" [OF refl] have "mset (as_completed cs (take ?i ?ys @ drop (Suc ?i) ?ys))
      = mset (take ?i ?ys @ drop (Suc ?i) ?ys)" .
  with m show ?case by (simp add: Let_def del: take_Suc_Cons drop_Suc_Cons nth_Cons_Suc)
qed simp_all

lemma execute_on_instance_result:
  assumes "execute_on_instance cfg env cmd timeout_seconds inst = Inr (res, st')"
  shows "\<exists>r. res = Some r \<and> instance_id r = InstanceId inst"
proof -
  from assms have l: "attempt_loop cfg env cmd timeout_seconds inst 0 \<lparr>clock = t0 env, trace = []\<rparr> = (res, st')"
    by (auto simp: execute_on_instance_def split: option.splits)
  from attempt_loop_facts [OF l] show ?thesis by auto
qed

lemma appended_future:
  assumes "future_of cfg cmd timeout_seconds fut"
  shows "\<exists>r. appended cmd t fut = [Some r] \<and> instance_id r = InstanceId (fst fut)"
proof -
  obtain inst out where f: "fut = (inst, out)" by (cases fut)
  from assms f obtain env where o: "out = execute_on_instance cfg env cmd timeout_seconds inst"
    by (auto simp: future_of_def)
  show ?thesis
  proof (cases out)
    case (Inl e)
    with f show ?thesis by (simp add: appended_def error_result_def failed_result_def)
  next
    case (Inr p)
    obtain res st where p: "p = (res, st)" by (cases p)
    from execute_on_instance_result [of cfg env cmd timeout_seconds inst res st] o Inr p
    obtain r where "res = Some r" "instance_id r = InstanceId inst" by auto
    with f Inr p show ?thesis by (simp add: appended_def)
  qed
qed

lemma appended_futures:
  assumes "\<forall>fut \<in> set futs. future_of cfg cmd timeout_seconds fut"
  shows "\<exists>rs. concat (map (appended cmd t) futs) = map Some rs \<and>
              map instance_id rs = map (\<lambda>fut. InstanceId (fst fut)) futs"
  using assms
proof (induction futs)
  case Nil
  show ?case by simp
next
  case (Cons fut futs)
  from Cons.prems have "future_of cfg cmd timeout_seconds fut" by simp
  from appended_future [OF this, of t] obtain r where
    r: "appended cmd t fut = [Some r]" "instance_id r = InstanceId (fst fut)" by blast
  from Cons obtain rs where rs: "concat (map (appended cmd t) futs) = map Some rs"
    "map instance_id rs = map (\<lambda>fut. InstanceId (fst fut)) futs" by auto
  from r rs have "concat (map (appended cmd t) (fut # futs)) = map Some (r # rs) \<and>
     map instance_id (r # rs) = map (\<lambda>fut. InstanceId (fst fut)) (fut # futs)" by simp
  then show ?case by blast
qed

lemma submit_all_futures:
  "\<forall>fut \<in> set (submit_all cfg w run cmd timeout_seconds validated). future_of cfg cmd timeout_seconds fut"
  by (auto simp: submit_all_def future_of_def)

lemma submit_all_fst: "map fst (submit_all cfg w run cmd timeout_seconds validated) = validated"
proof -
  have "map fst (submit_all cfg w run cmd timeout_seconds validated) = map snd (enumerate 0 validated)"
    by (simp add: submit_all_def split_def comp_def)
  then show ?thesis by simp
qed

lemma run_pool_results:
  "\<exists>rs. run_pool cfg w run cmd timeout_seconds validated = map Some rs \<and>
        mset (map instance_id rs) = mset (map InstanceId validated)"
proof -
  let ?futs = "submit_all cfg w run cmd timeout_seconds validated"
  let ?done = "as_completed (completion w run) ?futs"
  have m: "mset ?done = mset ?futs" by (rule as_completed_mset)
  then have "set ?done = set ?futs" by (rule mset_eq_setD)
  with submit_all_futures [of cfg w run cmd timeout_seconds validated]
  have "\<forall>fut \<in> set ?done. future_of cfg cmd timeout_seconds fut" by simp
  from appended_futures [OF this, of "datetime_now w run"] obtain rs where
    rs: "concat (map (appended cmd (datetime_now w run)) ?done) = map Some rs"
        "map instance_id rs = map (\<lambda>fut. InstanceId (fst fut)) ?done" by blast
  have "mset (map instance_id rs) = image_mset (\<lambda>fut. InstanceId (fst fut)) (mset ?done)"
    using rs(2) by simp
  also have "\<dots> = image_mset (\<lambda>fut. InstanceId (fst fut)) (mset ?futs)" by (simp only: m)
  also have "\<dots> = mset (map InstanceId (map fst ?futs))" by (simp add: comp_def)
  also have "\<dots> = mset (map InstanceId validated)" by (simp only: submit_all_fst)
  finally have "mset (map instance_id rs) = mset (map InstanceId validated)" .
  with rs(1) show ?thesis by (auto simp: run_pool_def)
qed

lemma replace_first_ids: "map instance_id (replace_first rr rs) = map instance_id rs"
  by (induction rs) auto

lemma replace_failed_ids: "map instance_id (replace_failed rs rrs) = map instance_id rs"
  unfolding replace_failed_def
  by (induction rrs arbitrary: rs) (auto simp: replace_first_ids)


lemma find_instance:
  "i \<in> set (map InstanceId validated) \<Longrightarrow> find (\<lambda>inst. InstanceId inst = i) validated \<noteq> None"
  by (auto simp: find_None_iff)

lemma failed_instances_found:
  assumes "set (map instance_id results) \<subseteq> set (map InstanceId validated)"
  shows "None \<notin> set (failed_instances_of validated results)"
proof
  assume "None \<in> set (failed_instances_of validated results)"
  then obtain r where r: "r \<in> set results" "find (\<lambda>inst. InstanceId inst = instance_id r) validated = None"
    by (auto simp: failed_instances_of_def)
  from r(1) assms have "instance_id r \<in> set (map InstanceId validated)" by auto
  from find_instance [OF this] r(2) show False by simp
qed


lemma store_history: "results_history (store w run results m) = results_history m @ results"
  by (simp add: store_def save_results_history_def Let_def)


lemma execute_batch_command_ids:
  "case execute_batch_command cfg w run instances cmd timeout_seconds stdin m of
     Inl e \<Rightarrow> e = EOFError \<and> (\<forall>line \<in> set stdin. lower (strip line) = ''y'')
   | Inr (results, m') \<Rightarrow>
       mset (map instance_id results) = mset (map InstanceId (validate_ssm_instances w run instances)) \<and>
       (\<exists>h. results_history m' = h @ results)"
proof (induction stdin arbitrary: run instances m)
  case Nil
  let ?v = "validate_ssm_instances w run instances"
  obtain rs where rs: "run_pool cfg w run cmd timeout_seconds ?v = map Some rs"
        "mset (map instance_id rs) = mset (map InstanceId ?v)"
    using run_pool_results by blast
  from rs(2) have "set (map instance_id rs) = set (map InstanceId ?v)" by (rule mset_eq_setD)
  then have f: "None \<notin> set (failed_instances_of ?v rs)"
    by (intro failed_instances_found) simp
  have t: "map the (map Some rs) = rs" "None \<notin> set (map Some rs)" by (auto simp: comp_def)
  show ?case
    using rs f
    by (subst execute_batch_command.simps)
       (auto simp: Let_def t store_history simp del: set_map mset_map)
next
  case (Cons line rest)
  let ?v = "validate_ssm_instances w run instances"
  obtain rs where rs: "run_pool cfg w run cmd timeout_seconds ?v = map Some rs"
        "mset (map instance_id rs) = mset (map InstanceId ?v)"
    using run_pool_results by blast
  from rs(2) have "set (map instance_id rs) = set (map InstanceId ?v)" by (rule mset_eq_setD)
  then have f: "None \<notin> set (failed_instances_of ?v rs)"
    by (intro failed_instances_found) simp
  have t: "map the (map Some rs) = rs" "None \<notin> set (map Some rs)" by (auto simp: comp_def)
  let ?rec = "execute_batch_command cfg w (Suc run) (map the (failed_instances_of ?v rs))
                cmd timeout_seconds rest m"
  note IH = Cons.IH [of "Suc run" "map the (failed_instances_of ?v rs)" m]
  show ?case
  proof (cases ?rec)
    case (Inl e)
    with IH have "e = EOFError \<and> (\<forall>line \<in> set rest. lower (strip line) = ''y'')" by simp
    with Inl rs f show ?thesis
      by (subst execute_batch_command.simps)
         (auto simp: Let_def t store_history simp del: set_map mset_map)
  next
    case (Inr p)
    obtain rrs m' where p: "p = (rrs, m')" by (cases p)
    have "mset (map instance_id (replace_failed rs rrs)) = mset (map InstanceId ?v)"
      using rs(2) by (simp only: replace_failed_ids)
    with Inr p rs f show ?thesis
      by (subst execute_batch_command.simps)
         (auto simp: Let_def t store_history simp del: set_map mset_map)
  qed
qed














lemma worker_exception_collected:
  assumes "i < length validated"
    and "execute_on_instance cfg (ssm_of w run i) cmd timeout_seconds (validated ! i) = Inl e"
  shows "Some (error_result cmd (validated ! i) e (datetime_now w run))
           \<in> set (run_pool cfg w run cmd timeout_seconds validated)"
proof -
  let ?futs = "submit_all cfg w run cmd timeout_seconds validated"
  have len: "length ?futs = length validated"
    by (simp add: submit_all_def)
  from assms(1) have "?futs ! i = (validated ! i, execute_on_instance cfg (ssm_of w run i) cmd timeout_seconds (validated ! i))"
    by (simp add: submit_all_def nth_enumerate_eq)
  with assms(2) have "?futs ! i = (validated ! i, Inl e)" by simp
  moreover from assms(1) len have "?futs ! i \<in> set ?futs" by simp
  ultimately have "(validated ! i, Inl e) \<in> set ?futs" by simp
  then have "(validated ! i, Inl e) \<in> set (as_completed (completion w run) ?futs)"
    by (simp only: mset_eq_setD [OF as_completed_mset])
  then have "\<exists>fut \<in> set (as_completed (completion w run) ?futs).
      Some (error_result cmd (validated ! i) e (datetime_now w run)) \<in> set (appended cmd (datetime_now w run) fut)"
    by (intro bexI [of _ "(validated ! i, Inl e)"]) (simp_all add: appended_def)
  then show ?thesis by (simp add: run_pool_def)
qed

text \<open>
  C1 (batch result completeness). A call of \<^verbatim>\<open>execute_batch_command\<close> either returns, and
  then the results have one entry per validated instance (the instance ids of the results
  are those of the validated instances, with multiplicity, so the two lists have the same
  length), or it is left by the \<^verbatim>\<open>EOFError\<close> of \<^verbatim>\<open>input()\<close>, which requires that every
  line the console had was an acceptance of the re-drive. The pool appends exactly one
  result per validated instance, none of them \<^verbatim>\<open>None\<close>; and a worker that raises gives
  the FAILED result whose error is \<^verbatim>\<open>Executor error: \<close> followed by the exception text.
\<close>

theorem batch_result_completeness:
  "(case execute_batch_command cfg w run instances cmd timeout_seconds stdin m of
      Inl e \<Rightarrow> e = EOFError \<and> (\<forall>line \<in> set stdin. lower (strip line) = ''y'')
    | Inr (results, m') \<Rightarrow>
        length results = length (validate_ssm_instances w run instances) \<and>
        mset (map instance_id results)
          = mset (map InstanceId (validate_ssm_instances w run instances))) \<and>
   length (run_pool cfg w run cmd timeout_seconds validated) = length validated \<and>
   None \<notin> set (run_pool cfg w run cmd timeout_seconds validated) \<and>
   (i < length validated \<and>
    execute_on_instance cfg (ssm_of w run i) cmd timeout_seconds (validated ! i) = Inl x \<longrightarrow>
      Some (error_result cmd (validated ! i) x (datetime_now w run))
        \<in> set (run_pool cfg w run cmd timeout_seconds validated)) \<and>
   status (error_result cmd inst x t) = ''FAILED'' \<and>
   error (error_result cmd inst x t) = ''Executor error: '' @ str_exn x"
proof -
  have a: "case execute_batch_command cfg w run instances cmd timeout_seconds stdin m of
      Inl e \<Rightarrow> e = EOFError \<and> (\<forall>line \<in> set stdin. lower (strip line) = ''y'')
    | Inr (results, m') \<Rightarrow>
        length results = length (validate_ssm_instances w run instances) \<and>
        mset (map instance_id results)
          = mset (map InstanceId (validate_ssm_instances w run instances))"
  proof (cases "execute_batch_command cfg w run instances cmd timeout_seconds stdin m")
    case (Inl e)
    with execute_batch_command_ids [where cfg = cfg and w = w and run = run and instances = instances
        and cmd = cmd and timeout_seconds = timeout_seconds and stdin = stdin and m = m]
    show ?thesis by simp
  next
    case (Inr p)
    obtain results m' where p: "p = (results, m')" by (cases p)
    with Inr execute_batch_command_ids [where cfg = cfg and w = w and run = run and instances = instances
        and cmd = cmd and timeout_seconds = timeout_seconds and stdin = stdin and m = m]
    have ms: "mset (map instance_id results) = mset (map InstanceId (validate_ssm_instances w run instances))"
      by simp
    from mset_eq_length [OF ms] have "length results = length (validate_ssm_instances w run instances)"
      by simp
    with ms Inr p show ?thesis by simp
  qed
  obtain rs where rs: "run_pool cfg w run cmd timeout_seconds validated = map Some rs"
        "mset (map instance_id rs) = mset (map InstanceId validated)"
    using run_pool_results by blast
  from mset_eq_length [OF rs(2)] rs(1)
  have b: "length (run_pool cfg w run cmd timeout_seconds validated) = length validated"
    and c: "None \<notin> set (run_pool cfg w run cmd timeout_seconds validated)"
    by auto
  have d: "status (error_result cmd inst x t) = ''FAILED'' \<and>
           error (error_result cmd inst x t) = ''Executor error: '' @ str_exn x"
    by (simp add: error_result_def failed_result_def)
  from a b c d worker_exception_collected [where i = i and validated = validated and cfg = cfg
      and w = w and run = run and cmd = cmd and timeout_seconds = timeout_seconds and e = x]
  show ?thesis by blast
qed

theorem batch_result_completeness_witness:
  "execute_batch_command config world_down 0 [inst0, inst1] ''uptime'' 120 [''y''] manager0 = Inl EOFError \<and>
   lower (strip ''y'') = ''y'' \<and>
   0 < length [inst0, inst1] \<and>
   execute_on_instance config (ssm_of world_down 0 0) ''uptime'' 120 ([inst0, inst1] ! 0)
     = Inl (Exception ''EndpointConnectionError'' ''down'') \<and>
   Some (error_result ''uptime'' ([inst0, inst1] ! 0) (Exception ''EndpointConnectionError'' ''down'')
           (datetime_now world_down 0))
     \<in> set (run_pool config world_down 0 ''uptime'' 120 [inst0, inst1]) \<and>
   execute_batch_command config world_down 0 [inst0, inst1] ''uptime'' 120 [''y'', ''n''] manager0 =
     Inr ([error_result ''uptime'' inst0 (Exception ''EndpointConnectionError'' ''down (a)'') 1,
           error_result ''uptime'' inst1 (Exception ''EndpointConnectionError'' ''down (b)'') 1],
          \<lparr>results_history =
             [error_result ''uptime'' inst0 (Exception ''EndpointConnectionError'' ''down (a)'') 1,
              error_result ''uptime'' inst1 (Exception ''EndpointConnectionError'' ''down (b)'') 1,
              error_result ''uptime'' inst0 (Exception ''EndpointConnectionError'' ''down (a)'') 1,
              error_result ''uptime'' inst1 (Exception ''EndpointConnectionError'' ''down (b)'') 1],
           results_file =
             [error_result ''uptime'' inst0 (Exception ''EndpointConnectionError'' ''down (a)'') 1,
              error_result ''uptime'' inst1 (Exception ''EndpointConnectionError'' ''down (b)'') 1,
              error_result ''uptime'' inst0 (Exception ''EndpointConnectionError'' ''down (a)'') 1,
              error_result ''uptime'' inst1 (Exception ''EndpointConnectionError'' ''down (b)'') 1]\<rparr>) \<and>
   length [error_result ''uptime'' inst0 (Exception ''EndpointConnectionError'' ''down (a)'') 1,
           error_result ''uptime'' inst1 (Exception ''EndpointConnectionError'' ''down (b)'') 1]
     = length (validate_ssm_instances world_down 0 [inst0, inst1])"
  (is "?run = _ \<and> ?all \<and> ?i \<and> ?w = _ \<and> ?mem \<and> ?run2 = Inr (?rs, ?m2) \<and> ?len")
proof -
  note t = batch_result_completeness [where cfg = config and w = world_down and run = 0
      and instances = "[inst0, inst1]" and cmd = "''uptime''" and timeout_seconds = 120
      and stdin = "[''y'']" and m = manager0 and validated = "[inst0, inst1]" and i = 0
      and x = "Exception ''EndpointConnectionError'' ''down''"]
  have e: "?run = Inl EOFError" by code_simp
  have w: "?w = Inl (Exception ''EndpointConnectionError'' ''down'')" by code_simp
  have i: "?i" by simp
  from t [THEN conjunct1, unfolded e sum.case]
  have "\<forall>line \<in> set [''y'']. lower (strip line) = ''y''"
    by (rule conjunct2)
  then have a: "?all" by simp
  from t [THEN conjunct2, THEN conjunct2, THEN conjunct2, THEN conjunct1, THEN mp, OF conjI [OF i w]]
  have m: "?mem" .
  note t2 = batch_result_completeness [where cfg = config and w = world_down and run = 0
      and instances = "[inst0, inst1]" and cmd = "''uptime''" and timeout_seconds = 120
      and stdin = "[''y'', ''n'']" and m = manager0]
  have e2: "?run2 = Inr (?rs, ?m2)" by code_simp
  from t2 [THEN conjunct1, unfolded e2 sum.case prod.case] have l: "?len"
    by (rule conjunct1)
  from e a i w m e2 l show ?thesis by (intro conjI)
qed







end
